theory Spec2Isabelle
  imports Main
begin

section \<open>Decimal integers as text\<close>

text \<open>
  The key-value store keeps counters as decimal text, and the services splice numbers into
  key names with template strings. Both use the canonical decimal form of an integer: an
  optional minus sign, then digits without leading zeros.
\<close>

definition digit_char :: "nat \<Rightarrow> char" where
  "digit_char d = ''0123456789'' ! d"

definition is_digit :: "char \<Rightarrow> bool" where
  "is_digit c = (c \<in> set ''0123456789'')"

definition digit_val :: "char \<Rightarrow> nat" where
  "digit_val c = of_char c - 48"

function show_nat :: "nat \<Rightarrow> string" where
  "show_nat n = (if n < 10 then [digit_char n] else show_nat (n div 10) @ [digit_char (n mod 10)])"
  by pat_completeness auto
termination
  by (relation "measure (\<lambda>n. n)") auto

declare show_nat.simps [simp del]

definition show_int :: "int \<Rightarrow> string" where
  "show_int i = (if i < 0 then CHR ''-'' # show_nat (nat (- i)) else show_nat (nat i))"

definition parse_nat :: "string \<Rightarrow> nat option" where
  "parse_nat s =
     (if s = [] \<or> \<not> list_all is_digit s \<or> (hd s = CHR ''0'' \<and> 1 < length s) then None
      else Some (foldl (\<lambda>a c. 10 * a + digit_val c) 0 s))"

definition parse_int :: "string \<Rightarrow> int option" where
  "parse_int s =
     (if s \<noteq> [] \<and> hd s = CHR ''-''
      then (case parse_nat (tl s) of
              None \<Rightarrow> None
            | Some n \<Rightarrow> if n = 0 then None else Some (- int n))
      else map_option int (parse_nat s))"


section \<open>The key-value store client\<close>

text \<open>
  The services reach the store through \<open>getRedisClient()\<close> and then call commands on
  the client it returns. A command either resolves with a reply or rejects with an error;
  either way the store may have changed. The services are written against an arbitrary
  client (a record of commands over a store state \<open>'s\<close>), so that statements about
  failures hold for every way a command can fail.
\<close>

datatype failure =
    NotConnected | WrongType | NotAnInteger | InvalidExpire | CommandFailed
  | JsonError | CallbackError string

type_synonym ('a, 's) cmd = "'s \<Rightarrow> (failure + 'a) \<times> 's"

record 's redis_client =
  rc_ready :: "'s \<Rightarrow> bool"
  rc_get :: "string \<Rightarrow> (string option, 's) cmd"
  rc_setEx :: "string \<Rightarrow> int \<Rightarrow> string \<Rightarrow> (unit, 's) cmd"
  rc_del :: "string \<Rightarrow> (int, 's) cmd"
  rc_exists :: "string \<Rightarrow> (int, 's) cmd"
  rc_incr :: "string \<Rightarrow> (int, 's) cmd"
  rc_decr :: "string \<Rightarrow> (int, 's) cmd"
  rc_incrBy :: "string \<Rightarrow> int \<Rightarrow> (int, 's) cmd"
  rc_decrBy :: "string \<Rightarrow> int \<Rightarrow> (int, 's) cmd"
  rc_expire :: "string \<Rightarrow> int \<Rightarrow> (bool, 's) cmd"
  rc_ttl :: "string \<Rightarrow> (int, 's) cmd"
  rc_sAdd :: "string \<Rightarrow> string \<Rightarrow> (int, 's) cmd"
  rc_sRem :: "string \<Rightarrow> string \<Rightarrow> (int, 's) cmd"
  rc_sMembers :: "string \<Rightarrow> (string list, 's) cmd"

text \<open>Sequencing of awaited commands: the first rejection aborts the rest of the block.\<close>

definition returnR :: "'a \<Rightarrow> ('a, 's) cmd" where
  "returnR a = (\<lambda>s. (Inr a, s))"

definition throwR :: "failure \<Rightarrow> ('a, 's) cmd" where
  "throwR e = (\<lambda>s. (Inl e, s))"

definition bindR :: "('a, 's) cmd \<Rightarrow> ('a \<Rightarrow> ('b, 's) cmd) \<Rightarrow> ('b, 's) cmd" where
  "bindR m f = (\<lambda>s. case m s of (Inl e, s') \<Rightarrow> (Inl e, s') | (Inr a, s') \<Rightarrow> f a s')"

text \<open>
  \<open>RedisManager.getClient\<close>: throws unless a client exists and is marked connected.
\<close>

definition getRedisClient :: "'s redis_client \<Rightarrow> (unit, 's) cmd" where
  "getRedisClient cl = (\<lambda>s. if rc_ready cl s then (Inr (), s) else (Inl NotConnected, s))"

subsection \<open>An in-memory store\<close>

text \<open>
  The store the client talks to, as far as the services use it: string values and sets of
  strings, each key with an optional expiry instant (milliseconds). An entry whose expiry
  has passed is absent for every command. Counters are strings holding a canonical decimal
  integer; they are taken as unbounded (the 64-bit limit of the store is out of reach of a
  request counter). Every command is appended to a journal, which plays the part of the
  call-count instrumentation of a test double.
\<close>

datatype rvalue = RString string | RSet "string list"

record rentry =
  rval :: rvalue
  rexp :: "int option"

datatype redis_cmd =
    CGet string | CSetEx string int string | CDel string | CExists string
  | CIncrBy string int | CExpire string int | CTtl string
  | CSAdd string string | CSRem string string | CSMembers string

record redis =
  connected :: bool
  kv :: "string \<rightharpoonup> rentry"
  journal :: "redis_cmd list"

definition live :: "int \<Rightarrow> redis \<Rightarrow> string \<Rightarrow> rentry option" where
  "live now s k =
     (case kv s k of
        None \<Rightarrow> None
      | Some e \<Rightarrow> (case rexp e of
                    None \<Rightarrow> Some e
                  | Some t \<Rightarrow> if t \<le> now then None else Some e))"

definition log_cmd :: "redis_cmd \<Rightarrow> redis \<Rightarrow> redis" where
  "log_cmd c s = s\<lparr>journal := journal s @ [c]\<rparr>"

definition put :: "string \<Rightarrow> rentry \<Rightarrow> redis \<Rightarrow> redis" where
  "put k e s = s\<lparr>kv := (kv s)(k \<mapsto> e)\<rparr>"

definition remove :: "string \<Rightarrow> redis \<Rightarrow> redis" where
  "remove k s = s\<lparr>kv := (kv s)(k := None)\<rparr>"

definition r_get :: "int \<Rightarrow> string \<Rightarrow> (string option, redis) cmd" where
  "r_get now k s =
     (let s' = log_cmd (CGet k) s in
      case live now s k of
        None \<Rightarrow> (Inr None, s')
      | Some e \<Rightarrow> (case rval e of
                    RString v \<Rightarrow> (Inr (Some v), s')
                  | RSet ms \<Rightarrow> (Inl WrongType, s')))"

definition r_setEx :: "int \<Rightarrow> string \<Rightarrow> int \<Rightarrow> string \<Rightarrow> (unit, redis) cmd" where
  "r_setEx now k ttl v s =
     (let s' = log_cmd (CSetEx k ttl v) s in
      if ttl \<le> 0 then (Inl InvalidExpire, s')
      else (Inr (), put k \<lparr>rval = RString v, rexp = Some (now + ttl * 1000)\<rparr> s'))"

definition r_del :: "int \<Rightarrow> string \<Rightarrow> (int, redis) cmd" where
  "r_del now k s =
     (let s' = log_cmd (CDel k) s in
      case live now s k of
        None \<Rightarrow> (Inr 0, remove k s')
      | Some e \<Rightarrow> (Inr 1, remove k s'))"

definition r_exists :: "int \<Rightarrow> string \<Rightarrow> (int, redis) cmd" where
  "r_exists now k s =
     (let s' = log_cmd (CExists k) s in
      case live now s k of None \<Rightarrow> (Inr 0, s') | Some e \<Rightarrow> (Inr 1, s'))"

definition r_incrBy :: "int \<Rightarrow> string \<Rightarrow> int \<Rightarrow> (int, redis) cmd" where
  "r_incrBy now k b s =
     (let s' = log_cmd (CIncrBy k b) s in
      case live now s k of
        None \<Rightarrow> (Inr b, put k \<lparr>rval = RString (show_int b), rexp = None\<rparr> s')
      | Some e \<Rightarrow>
          (case rval e of
             RSet ms \<Rightarrow> (Inl WrongType, s')
           | RString v \<Rightarrow>
               (case parse_int v of
                  None \<Rightarrow> (Inl NotAnInteger, s')
                | Some n \<Rightarrow> (Inr (n + b), put k (e\<lparr>rval := RString (show_int (n + b))\<rparr>) s'))))"

definition r_expire :: "int \<Rightarrow> string \<Rightarrow> int \<Rightarrow> (bool, redis) cmd" where
  "r_expire now k secs s =
     (let s' = log_cmd (CExpire k secs) s in
      case live now s k of
        None \<Rightarrow> (Inr False, s')
      | Some e \<Rightarrow> (Inr True, put k (e\<lparr>rexp := Some (now + secs * 1000)\<rparr>) s'))"

definition r_ttl :: "int \<Rightarrow> string \<Rightarrow> (int, redis) cmd" where
  "r_ttl now k s =
     (let s' = log_cmd (CTtl k) s in
      case live now s k of
        None \<Rightarrow> (Inr (- 2), s')
      | Some e \<Rightarrow> (case rexp e of
                    None \<Rightarrow> (Inr (- 1), s')
                  | Some t \<Rightarrow> (Inr ((t - now + 500) div 1000), s')))"

definition r_sAdd :: "int \<Rightarrow> string \<Rightarrow> string \<Rightarrow> (int, redis) cmd" where
  "r_sAdd now k m s =
     (let s' = log_cmd (CSAdd k m) s in
      case live now s k of
        None \<Rightarrow> (Inr 1, put k \<lparr>rval = RSet [m], rexp = None\<rparr> s')
      | Some e \<Rightarrow>
          (case rval e of
             RString v \<Rightarrow> (Inl WrongType, s')
           | RSet ms \<Rightarrow>
               if m \<in> set ms then (Inr 0, s')
               else (Inr 1, put k (e\<lparr>rval := RSet (ms @ [m])\<rparr>) s')))"

definition r_sRem :: "int \<Rightarrow> string \<Rightarrow> string \<Rightarrow> (int, redis) cmd" where
  "r_sRem now k m s =
     (let s' = log_cmd (CSRem k m) s in
      case live now s k of
        None \<Rightarrow> (Inr 0, s')
      | Some e \<Rightarrow>
          (case rval e of
             RString v \<Rightarrow> (Inl WrongType, s')
           | RSet ms \<Rightarrow>
               if m \<in> set ms
               then (if removeAll m ms = [] then (Inr 1, remove k s')
                     else (Inr 1, put k (e\<lparr>rval := RSet (removeAll m ms)\<rparr>) s'))
               else (Inr 0, s')))"

definition r_sMembers :: "int \<Rightarrow> string \<Rightarrow> (string list, redis) cmd" where
  "r_sMembers now k s =
     (let s' = log_cmd (CSMembers k) s in
      case live now s k of
        None \<Rightarrow> (Inr [], s')
      | Some e \<Rightarrow> (case rval e of
                    RString v \<Rightarrow> (Inl WrongType, s')
                  | RSet ms \<Rightarrow> (Inr ms, s')))"

text \<open>The client of the in-memory store at the instant \<open>now\<close>.\<close>

definition redis_at :: "int \<Rightarrow> redis redis_client" where
  "redis_at now =
     \<lparr>rc_ready = connected,
      rc_get = r_get now,
      rc_setEx = r_setEx now,
      rc_del = r_del now,
      rc_exists = r_exists now,
      rc_incr = (\<lambda>k. r_incrBy now k 1),
      rc_decr = (\<lambda>k. r_incrBy now k (- 1)),
      rc_incrBy = r_incrBy now,
      rc_decrBy = (\<lambda>k b. r_incrBy now k (- b)),
      rc_expire = r_expire now,
      rc_ttl = r_ttl now,
      rc_sAdd = r_sAdd now,
      rc_sRem = r_sRem now,
      rc_sMembers = r_sMembers now\<rparr>"

section \<open>RateLimiter\<close>

text \<open>
  Of \<open>RateLimitOptions\<close> only \<open>windowMs\<close> and \<open>maxRequests\<close> are read by
  \<open>checkRateLimit\<close>. Both are integers in every limiter the code configures;
  \<open>Math.floor(now / windowMs)\<close> is then integer floor division (for \<open>windowMs \<noteq> 0\<close>)
  and \<open>Math.ceil(windowMs / 1000)\<close> is \<open>ceil_div\<close>.
\<close>

record RateLimitOptions =
  windowMs :: int
  maxRequests :: int

record RateLimitInfo =
  totalHits :: int
  totalHitsPerWindow :: int
  remainingPoints :: int
  msBeforeNext :: int
  isFirstInDuration :: bool

definition ceil_div :: "int \<Rightarrow> int \<Rightarrow> int" where
  "ceil_div a b = - ((- a) div b)"

text \<open>The template string \<open>rate_limit:${key}:${window}\<close>.\<close>

definition rateLimitKey :: "string \<Rightarrow> int \<Rightarrow> string" where
  "rateLimitKey key window = ''rate_limit:'' @ key @ '':'' @ show_int window"

text \<open>The body of the \<open>try\<close> block of \<open>checkRateLimit\<close>.\<close>

definition checkRateLimit_try ::
  "'s redis_client \<Rightarrow> RateLimitOptions \<Rightarrow> string \<Rightarrow> int \<Rightarrow> (RateLimitInfo, 's) cmd" where
  "checkRateLimit_try cl opts key now =
     bindR (getRedisClient cl) (\<lambda>redis.
       let window = now div windowMs opts;
           redisKey = rateLimitKey key window
       in bindR (rc_incr cl redisKey) (\<lambda>currentCount.
            bindR (if currentCount = 1
                   then bindR (rc_expire cl redisKey (ceil_div (windowMs opts) 1000))
                          (\<lambda>r. returnR ())
                   else returnR ()) (\<lambda>u.
              let remainingPoints = maxRequests opts - currentCount;
                  windowStart = window * windowMs opts;
                  windowEnd = windowStart + windowMs opts;
                  msBeforeNext = windowEnd - now
              in returnR \<lparr>totalHits = currentCount,
                          totalHitsPerWindow = currentCount,
                          remainingPoints = remainingPoints,
                          msBeforeNext = msBeforeNext,
                          isFirstInDuration = (currentCount = 1)\<rparr>)))"

text \<open>The \<open>catch\<close> block: permissive values on any error.\<close>

definition permissiveInfo :: "RateLimitOptions \<Rightarrow> RateLimitInfo" where
  "permissiveInfo opts =
     \<lparr>totalHits = 0,
      totalHitsPerWindow = 0,
      remainingPoints = maxRequests opts,
      msBeforeNext = windowMs opts,
      isFirstInDuration = True\<rparr>"

definition checkRateLimit ::
  "'s redis_client \<Rightarrow> RateLimitOptions \<Rightarrow> string \<Rightarrow> int \<Rightarrow> 's \<Rightarrow> RateLimitInfo \<times> 's" where
  "checkRateLimit cl opts key now s =
     (case checkRateLimit_try cl opts key now s of
        (Inl error, s') \<Rightarrow> (permissiveInfo opts, s')
      | (Inr info, s') \<Rightarrow> (info, s'))"

text \<open>
  \<open>decrementCounter\<close>, which the middleware calls when a response is to be skipped
  (\<open>skipSuccessfulRequests\<close>, \<open>skipFailedRequests\<close>). It returns nothing and its
  \<open>catch\<close> only logs.
\<close>

definition decrementCounter ::
  "'s redis_client \<Rightarrow> RateLimitOptions \<Rightarrow> string \<Rightarrow> int \<Rightarrow> 's \<Rightarrow> 's" where
  "decrementCounter cl opts key now s =
     (case bindR (getRedisClient cl) (\<lambda>redis.
             let window = now div windowMs opts;
                 redisKey = rateLimitKey key window
             in bindR (rc_decr cl redisKey) (\<lambda>n. returnR ())) s of
        (r, s') \<Rightarrow> s')"

text \<open>
  A caller issuing \<open>checkRateLimit(key)\<close> once at each of the instants \<open>ts\<close>, in order,
  against the in-memory store.
\<close>

fun checkRateLimit_calls ::
  "RateLimitOptions \<Rightarrow> string \<Rightarrow> int list \<Rightarrow> redis \<Rightarrow> RateLimitInfo list \<times> redis" where
  "checkRateLimit_calls opts key [] s = ([], s)"
| "checkRateLimit_calls opts key (t # ts) s =
     (case checkRateLimit (redis_at t) opts key t s of
        (info, s') \<Rightarrow> (case checkRateLimit_calls opts key ts s' of
                        (infos, s'') \<Rightarrow> (info # infos, s'')))"

section \<open>CacheService\<close>

text \<open>
  Cached values are JavaScript values. \<open>JSON.stringify\<close> and \<open>JSON.parse\<close> belong to the
  runtime, not to this code base, so the cache is modelled over any pair of them: \<open>stringify\<close>
  yields the text, or nothing when it throws or returns \<open>undefined\<close> (which the client
  refuses as an argument); \<open>parse\<close> yields the value, or nothing when it throws.
\<close>

datatype jsvalue =
    JUndefined | JNull | JBool bool | JNum int | JStr string
  | JArr "jsvalue list" | JObj "(string \<times> jsvalue) list"

record json_codec =
  stringify :: "jsvalue \<Rightarrow> string option"
  parse :: "string \<Rightarrow> jsvalue option"

text \<open>
  The two built-ins on scalar documents (\<open>null\<close>, \<open>true\<close>, \<open>false\<close> and integers in
  canonical decimal form), for concrete examples; no other document is used with them.
\<close>

definition scalar_stringify :: "jsvalue \<Rightarrow> string option" where
  "scalar_stringify v =
     (case v of
        JNull \<Rightarrow> Some ''null''
      | JBool b \<Rightarrow> Some (if b then ''true'' else ''false'')
      | JNum n \<Rightarrow> Some (show_int n)
      | _ \<Rightarrow> None)"

definition scalar_parse :: "string \<Rightarrow> jsvalue option" where
  "scalar_parse text =
     (if text = ''null'' then Some JNull
      else if text = ''true'' then Some (JBool True)
      else if text = ''false'' then Some (JBool False)
      else map_option JNum (parse_int text))"

definition scalar_json :: json_codec where
  "scalar_json = \<lparr>stringify = scalar_stringify, parse = scalar_parse\<rparr>"

record CacheOptions =
  ttl :: "int option"
  namespace :: "string option"

definition DEFAULT_TTL :: int where
  "DEFAULT_TTL = 300"

text \<open>
  \<open>buildKey\<close>: \<open>namespace ? `${namespace}:${key}` : key\<close>. An absent namespace and the
  empty string are both falsy.
\<close>

definition buildKey :: "string \<Rightarrow> string option \<Rightarrow> string" where
  "buildKey key ns =
     (case ns of
        None \<Rightarrow> key
      | Some n \<Rightarrow> if n = [] then key else n @ '':'' @ key)"

text \<open>\<open>options.ttl || this.DEFAULT_TTL\<close>: an absent ttl and 0 are both falsy.\<close>

definition effectiveTtl :: "CacheOptions \<Rightarrow> int" where
  "effectiveTtl options =
     (case ttl options of
        None \<Rightarrow> DEFAULT_TTL
      | Some t \<Rightarrow> if t = 0 then DEFAULT_TTL else t)"

definition cache_set ::
  "'s redis_client \<Rightarrow> json_codec \<Rightarrow> string \<Rightarrow> jsvalue \<Rightarrow> CacheOptions \<Rightarrow> 's \<Rightarrow> bool \<times> 's" where
  "cache_set cl codec key val options s =
     (case bindR (getRedisClient cl) (\<lambda>redis.
             let cacheKey = buildKey key (namespace options);
                 ttl = effectiveTtl options
             in case stringify codec val of
                  None \<Rightarrow> throwR JsonError
                | Some serializedValue \<Rightarrow>
                    bindR (rc_setEx cl cacheKey ttl serializedValue) (\<lambda>u. returnR True)) s of
        (Inl error, s') \<Rightarrow> (False, s')
      | (Inr ok, s') \<Rightarrow> (ok, s'))"

definition cache_get ::
  "'s redis_client \<Rightarrow> json_codec \<Rightarrow> string \<Rightarrow> string option \<Rightarrow> 's \<Rightarrow> jsvalue \<times> 's" where
  "cache_get cl codec key ns s =
     (case bindR (getRedisClient cl) (\<lambda>redis.
             let cacheKey = buildKey key ns
             in bindR (rc_get cl cacheKey) (\<lambda>cachedValue.
                  case cachedValue of
                    None \<Rightarrow> returnR JNull
                  | Some text \<Rightarrow>
                      if text = [] then returnR JNull
                      else (case parse codec text of
                              None \<Rightarrow> throwR JsonError
                            | Some v \<Rightarrow> returnR v))) s of
        (Inl error, s') \<Rightarrow> (JNull, s')
      | (Inr v, s') \<Rightarrow> (v, s'))"

definition cache_delete ::
  "'s redis_client \<Rightarrow> string \<Rightarrow> string option \<Rightarrow> 's \<Rightarrow> bool \<times> 's" where
  "cache_delete cl key ns s =
     (case bindR (getRedisClient cl) (\<lambda>redis.
             let cacheKey = buildKey key ns
             in bindR (rc_del cl cacheKey) (\<lambda>result. returnR (0 < result))) s of
        (Inl error, s') \<Rightarrow> (False, s')
      | (Inr b, s') \<Rightarrow> (b, s'))"

definition cache_exists ::
  "'s redis_client \<Rightarrow> string \<Rightarrow> string option \<Rightarrow> 's \<Rightarrow> bool \<times> 's" where
  "cache_exists cl key ns s =
     (case bindR (getRedisClient cl) (\<lambda>redis.
             let cacheKey = buildKey key ns
             in bindR (rc_exists cl cacheKey) (\<lambda>result. returnR (0 < result))) s of
        (Inl error, s') \<Rightarrow> (False, s')
      | (Inr b, s') \<Rightarrow> (b, s'))"


text \<open>\<open>increment\<close> and \<open>decrement\<close> (the amount \<open>by\<close> defaults to 1 at the call site).\<close>

definition increment ::
  "'s redis_client \<Rightarrow> string \<Rightarrow> int \<Rightarrow> string option \<Rightarrow> 's \<Rightarrow> int \<times> 's" where
  "increment cl key by ns s =
     (case bindR (getRedisClient cl) (\<lambda>redis.
             let cacheKey = buildKey key ns
             in bindR (rc_incrBy cl cacheKey by) (\<lambda>result. returnR result)) s of
        (Inl error, s') \<Rightarrow> (0, s')
      | (Inr result, s') \<Rightarrow> (result, s'))"

definition decrement ::
  "'s redis_client \<Rightarrow> string \<Rightarrow> int \<Rightarrow> string option \<Rightarrow> 's \<Rightarrow> int \<times> 's" where
  "decrement cl key by ns s =
     (case bindR (getRedisClient cl) (\<lambda>redis.
             let cacheKey = buildKey key ns
             in bindR (rc_decrBy cl cacheKey by) (\<lambda>result. returnR result)) s of
        (Inl error, s') \<Rightarrow> (0, s')
      | (Inr result, s') \<Rightarrow> (result, s'))"

section \<open>Tenant context\<close>

text \<open>
  The platform database holds one row per tenant. \<open>findFirst\<close> and \<open>findUnique\<close> return
  the first matching row or \<open>null\<close>, and reject when the database is unavailable.
\<close>

datatype tenant_status = TRIAL | ACTIVE | SUSPENDED | CANCELLED

record TenantContext =
  tenant_id :: string
  tenant_name :: string
  subdomain :: string
  databaseName :: string
  status :: tenant_status

record platformDb =
  available :: bool
  tenants :: "TenantContext list"

datatype db_error =
    PlatformUnavailable | TenantNotFound string | TenantNotActive string
  | ConnectionFailed string

definition findFirst :: "platformDb \<Rightarrow> string \<Rightarrow> db_error + TenantContext option" where
  "findFirst db tenantIdentifier =
     (if \<not> available db then Inl PlatformUnavailable
      else Inr (find (\<lambda>t. subdomain t = tenantIdentifier \<or> tenant_id t = tenantIdentifier)
                  (tenants db)))"

definition findUnique :: "platformDb \<Rightarrow> string \<Rightarrow> db_error + TenantContext option" where
  "findUnique db tenantId =
     (if \<not> available db then Inl PlatformUnavailable
      else Inr (find (\<lambda>t. tenant_id t = tenantId) (tenants db)))"

text \<open>
  The request, as far as \<open>extractTenantContext\<close> reads it: \<open>req.get\<close> of three headers, each
  a string or \<open>undefined\<close>. \<open>jwt.verify\<close> is a library call and a parameter of the model: it
  yields the decoded payload or nothing when it throws; of the payload only \<open>tenantId\<close> is
  read, which may be missing.
\<close>

record Request =
  host :: "string option"
  xTenantId :: "string option"
  authorization :: "string option"

record jwt_payload =
  jwt_tenantId :: "string option"

text \<open>\<open>!tenantIdentifier\<close>: \<open>null\<close>, \<open>undefined\<close> and the empty string are falsy.\<close>

definition falsy :: "string option \<Rightarrow> bool" where
  "falsy x = (x = None \<or> x = Some [])"

text \<open>
  The first part of \<open>extractTenantContext\<close>: the assignments to \<open>tenantIdentifier\<close>, in
  the order of the source, up to \<open>if (!tenantIdentifier) return null\<close>.
\<close>

definition extractTenantIdentifier ::
  "(string \<Rightarrow> jwt_payload option) \<Rightarrow> Request \<Rightarrow> string option" where
  "extractTenantIdentifier verify req =
     (let tenantIdentifier = None;
          tenantIdentifier =
            (case host req of
               None \<Rightarrow> tenantIdentifier
             | Some h \<Rightarrow>
                 if h \<noteq> [] \<and> CHR ''.'' \<in> set h
                 then (let sub = takeWhile (\<lambda>c. c \<noteq> CHR ''.'') h
                       in if sub \<noteq> [] \<and> sub \<noteq> ''www'' \<and> sub \<noteq> ''api''
                          then Some sub else tenantIdentifier)
                 else tenantIdentifier);
          tenantIdentifier =
            (if falsy tenantIdentifier
             then (if falsy (xTenantId req) then None else xTenantId req)
             else tenantIdentifier);
          tenantIdentifier =
            (if falsy tenantIdentifier
             then (case authorization req of
                     None \<Rightarrow> tenantIdentifier
                   | Some authHeader \<Rightarrow>
                       if authHeader \<noteq> [] \<and> take 7 authHeader = ''Bearer ''
                       then (case verify (drop 7 authHeader) of
                               None \<Rightarrow> tenantIdentifier
                             | Some decoded \<Rightarrow> jwt_tenantId decoded)
                       else tenantIdentifier)
             else tenantIdentifier)
      in if falsy tenantIdentifier then None else tenantIdentifier)"

definition extractTenantContext ::
  "(string \<Rightarrow> jwt_payload option) \<Rightarrow> platformDb \<Rightarrow> Request \<Rightarrow> TenantContext option" where
  "extractTenantContext verify db req =
     (case extractTenantIdentifier verify req of
        None \<Rightarrow> None
      | Some tenantIdentifier \<Rightarrow>
          (case findFirst db tenantIdentifier of
             Inl error \<Rightarrow> None
           | Inr tenant \<Rightarrow> tenant))"

text \<open>
  The three places an identifier can come from, each on its own: the first label of the
  host, the \<open>X-Tenant-ID\<close> header, and the \<open>tenantId\<close> claim of a bearer token.
\<close>

definition hostSubdomain :: "Request \<Rightarrow> string option" where
  "hostSubdomain req =
     (case host req of
        None \<Rightarrow> None
      | Some h \<Rightarrow>
          if CHR ''.'' \<in> set h \<and> takeWhile (\<lambda>c. c \<noteq> CHR ''.'') h \<notin> {[], ''www'', ''api''}
          then Some (takeWhile (\<lambda>c. c \<noteq> CHR ''.'') h) else None)"

definition headerTenant :: "Request \<Rightarrow> string option" where
  "headerTenant req = (if falsy (xTenantId req) then None else xTenantId req)"

definition bearerTenant :: "(string \<Rightarrow> jwt_payload option) \<Rightarrow> Request \<Rightarrow> string option" where
  "bearerTenant verify req =
     (case authorization req of
        None \<Rightarrow> None
      | Some authHeader \<Rightarrow>
          if take 7 authHeader = ''Bearer ''
          then (case verify (drop 7 authHeader) of
                  None \<Rightarrow> None
                | Some decoded \<Rightarrow> if falsy (jwt_tenantId decoded) then None else jwt_tenantId decoded)
          else None)"

text \<open>
  The resolution order in the words of the specification: header first, then subdomain,
  then bearer claim.
\<close>

definition specifiedOrder :: "(string \<Rightarrow> jwt_payload option) \<Rightarrow> Request \<Rightarrow> string option" where
  "specifiedOrder verify req =
     (case headerTenant req of
        Some t \<Rightarrow> Some t
      | None \<Rightarrow> (case hostSubdomain req of
                   Some t \<Rightarrow> Some t
                 | None \<Rightarrow> bearerTenant verify req))"

section \<open>Tenant connection registry\<close>

text \<open>
  A \<open>PrismaClient\<close> object is identified by the order of its construction and carries the
  database URL it was built with. The registry state is the module-level map
  \<open>tenantConnections\<close>; the number of clients constructed so far and the list of clients
  whose \<open>$connect()\<close> succeeded are kept beside it to tell objects apart and to count
  connection establishments.
\<close>

record prisma_client =
  client_no :: nat
  url :: string

record registry =
  tenantConnections :: "string \<rightharpoonup> prisma_client"
  constructed :: nat
  established :: "prisma_client list"

text \<open>
  What \<open>getTenantDb\<close> reads from outside: the platform database, the base URL from the
  process environment, and whether a \<open>$connect()\<close> to a given URL succeeds.
\<close>

record db_env =
  platform :: platformDb
  baseUrl :: string
  reachable :: "string \<Rightarrow> bool"

text \<open>
  \<open>baseUrl.replace(/\/[^\/]*$/, `/${databaseName}`)\<close>: everything from the last slash on
  is replaced; a URL without a slash is left as it is. (Database names contain no \<open>$\<close>.)
\<close>

definition tenantDatabaseUrl :: "string \<Rightarrow> string \<Rightarrow> string" where
  "tenantDatabaseUrl base dbName =
     (if CHR ''/'' \<in> set base
      then rev (tl (dropWhile (\<lambda>c. c \<noteq> CHR ''/'') (rev base))) @ ''/'' @ dbName
      else base)"

definition getTenantDb ::
  "db_env \<Rightarrow> string \<Rightarrow> registry \<Rightarrow> (db_error + prisma_client) \<times> registry" where
  "getTenantDb env tenantId reg =
     (case tenantConnections reg tenantId of
        Some connection \<Rightarrow> (Inr connection, reg)
      | None \<Rightarrow>
          (case findUnique (platform env) tenantId of
             Inl error \<Rightarrow> (Inl error, reg)
           | Inr None \<Rightarrow> (Inl (TenantNotFound tenantId), reg)
           | Inr (Some tenant) \<Rightarrow>
               if status tenant \<noteq> ACTIVE \<and> status tenant \<noteq> TRIAL
               then (Inl (TenantNotActive tenantId), reg)
               else
                 (let tenantDb = \<lparr>client_no = constructed reg,
                                  url = tenantDatabaseUrl (baseUrl env) (databaseName tenant)\<rparr>;
                      reg1 = reg\<lparr>constructed := constructed reg + 1\<rparr>
                  in if \<not> reachable env (url tenantDb)
                     then (Inl (ConnectionFailed tenantId), reg1)
                     else (Inr tenantDb,
                           reg1\<lparr>established := established reg1 @ [tenantDb],
                                tenantConnections := (tenantConnections reg1)(tenantId \<mapsto> tenantDb)\<rparr>))))"

text \<open>\<open>n\<close> calls for the same tenant, each completing before the next one starts.\<close>

fun getTenantDb_repeat ::
  "db_env \<Rightarrow> string \<Rightarrow> nat \<Rightarrow> registry \<Rightarrow> (db_error + prisma_client) list \<times> registry" where
  "getTenantDb_repeat env tenantId 0 reg = ([], reg)"
| "getTenantDb_repeat env tenantId (Suc n) reg =
     (case getTenantDb env tenantId reg of
        (r, reg') \<Rightarrow> (case getTenantDb_repeat env tenantId n reg' of
                       (rs, reg'') \<Rightarrow> (r # rs, reg'')))"

subsection \<open>Overlapping calls\<close>

text \<open>
  \<open>getTenantDb\<close> is an async function with two \<open>await\<close>s. A call runs without
  interruption from its start to \<open>await findUnique\<close>, from there to \<open>await $connect()\<close>, and
  from there to its end; between these segments other calls may run. A call is therefore
  in one of four states, and \<open>call_step\<close> runs its next segment.
\<close>

datatype call_state =
    Started
  | AwaitingFindUnique
  | AwaitingConnect TenantContext prisma_client
  | Returned "db_error + prisma_client"

fun call_step :: "db_env \<Rightarrow> string \<Rightarrow> call_state \<Rightarrow> registry \<Rightarrow> call_state \<times> registry" where
  "call_step env tenantId Started reg =
     (case tenantConnections reg tenantId of
        Some connection \<Rightarrow> (Returned (Inr connection), reg)
      | None \<Rightarrow> (AwaitingFindUnique, reg))"
| "call_step env tenantId AwaitingFindUnique reg =
     (case findUnique (platform env) tenantId of
        Inl error \<Rightarrow> (Returned (Inl error), reg)
      | Inr None \<Rightarrow> (Returned (Inl (TenantNotFound tenantId)), reg)
      | Inr (Some tenant) \<Rightarrow>
          if status tenant \<noteq> ACTIVE \<and> status tenant \<noteq> TRIAL
          then (Returned (Inl (TenantNotActive tenantId)), reg)
          else (AwaitingConnect tenant
                  \<lparr>client_no = constructed reg,
                   url = tenantDatabaseUrl (baseUrl env) (databaseName tenant)\<rparr>,
                reg\<lparr>constructed := constructed reg + 1\<rparr>))"
| "call_step env tenantId (AwaitingConnect tenant tenantDb) reg =
     (if \<not> reachable env (url tenantDb)
      then (Returned (Inl (ConnectionFailed tenantId)), reg)
      else (Returned (Inr tenantDb),
            reg\<lparr>established := established reg @ [tenantDb],
                tenantConnections := (tenantConnections reg)(tenantId \<mapsto> tenantDb)\<rparr>))"
| "call_step env tenantId (Returned r) reg = (Returned r, reg)"

text \<open>
  A schedule names, segment by segment, which of the pending calls runs next. Each call
  is a tenant id with its state.
\<close>

fun run_schedule ::
  "db_env \<Rightarrow> nat list \<Rightarrow> (string \<times> call_state) list \<Rightarrow> registry
     \<Rightarrow> (string \<times> call_state) list \<times> registry" where
  "run_schedule env [] calls reg = (calls, reg)"
| "run_schedule env (i # sched) calls reg =
     (if i < length calls
      then (case call_step env (fst (calls ! i)) (snd (calls ! i)) reg of
              (st, reg') \<Rightarrow> run_schedule env sched (calls[i := (fst (calls ! i), st)]) reg')
      else run_schedule env sched calls reg)"

section \<open>SessionService\<close>

record DeviceInfo =
  userAgent :: string
  ip :: string
  deviceId :: string

record SessionData =
  userId :: string
  tenantId :: string
  email :: string
  role :: string
  deviceInfo :: "DeviceInfo option"
  loginTime :: int
  lastActivity :: int
  twoFactorVerified :: "bool option"

text \<open>
  Session data is stored as JSON text. As for the cache, the two runtime built-ins are
  parameters: \<open>stringifySession\<close> is \<open>JSON.stringify\<close> on session data, and
  \<open>parseSession\<close> is \<open>JSON.parse\<close>, yielding nothing when it throws or when the text does
  not denote session data (\<open>getSession\<close> then returns a falsy value or \<open>null\<close>, and writes
  nothing).
\<close>

record session_codec =
  stringifySession :: "SessionData \<Rightarrow> string"
  parseSession :: "string \<Rightarrow> SessionData option"

definition getSessionKey :: "string \<Rightarrow> string" where
  "getSessionKey sessionId = ''session:'' @ sessionId"

definition getUserSessionsKey :: "string \<Rightarrow> string" where
  "getUserSessionsKey user = ''user_sessions:'' @ user"

text \<open>
  \<open>updateLastActivity\<close> assigns to \<open>sessionData.lastActivity\<close> in place, so the caller sees
  the new stamp; the updated object is returned here. Its \<open>catch\<close> only logs.
\<close>

definition updateLastActivity ::
  "'s redis_client \<Rightarrow> session_codec \<Rightarrow> int \<Rightarrow> string \<Rightarrow> SessionData \<Rightarrow> 's
     \<Rightarrow> SessionData \<times> 's" where
  "updateLastActivity cl codec now sessionId sessionData s =
     (if \<not> rc_ready cl s then (sessionData, s)
      else
        (let sessionKey = getSessionKey sessionId in
         if now - lastActivity sessionData > 60000
         then (let sessionData' = sessionData\<lparr>lastActivity := now\<rparr> in
               case rc_ttl cl sessionKey s of
                 (Inl error, s1) \<Rightarrow> (sessionData', s1)
               | (Inr remaining, s1) \<Rightarrow>
                   if remaining > 0
                   then (case rc_setEx cl sessionKey remaining (stringifySession codec sessionData') s1 of
                           (r, s2) \<Rightarrow> (sessionData', s2))
                   else (sessionData', s1))
         else (sessionData, s)))"

definition getSession ::
  "'s redis_client \<Rightarrow> session_codec \<Rightarrow> int \<Rightarrow> string \<Rightarrow> 's \<Rightarrow> SessionData option \<times> 's" where
  "getSession cl codec now sessionId s =
     (case bindR (getRedisClient cl) (\<lambda>redis.
             let sessionKey = getSessionKey sessionId
             in bindR (rc_get cl sessionKey) (\<lambda>sessionDataStr.
                  case sessionDataStr of
                    None \<Rightarrow> returnR None
                  | Some text \<Rightarrow>
                      if text = [] then returnR None
                      else (case parseSession codec text of
                              None \<Rightarrow> returnR None
                            | Some sessionData \<Rightarrow>
                                (\<lambda>s1. case updateLastActivity cl codec now sessionId sessionData s1 of
                                         (sessionData', s2) \<Rightarrow> (Inr (Some sessionData'), s2))))) s of
        (Inl error, s') \<Rightarrow> (None, s')
      | (Inr r, s') \<Rightarrow> (r, s'))"

text \<open>The \<open>for\<close> loop of \<open>getUserSessions\<close> over the ids read from the set.\<close>

fun collectSessions ::
  "'s redis_client \<Rightarrow> session_codec \<Rightarrow> int \<Rightarrow> string \<Rightarrow> string list
     \<Rightarrow> (string \<times> SessionData) list \<Rightarrow> ((string \<times> SessionData) list, 's) cmd" where
  "collectSessions cl codec now userSessionsKey [] sessions s = (Inr sessions, s)"
| "collectSessions cl codec now userSessionsKey (sessionId # rest) sessions s =
     (case getSession cl codec now sessionId s of
        (Some sessionData, s1) \<Rightarrow>
          collectSessions cl codec now userSessionsKey rest (sessions @ [(sessionId, sessionData)]) s1
      | (None, s1) \<Rightarrow>
          (case rc_sRem cl userSessionsKey sessionId s1 of
             (Inl error, s2) \<Rightarrow> (Inl error, s2)
           | (Inr n, s2) \<Rightarrow> collectSessions cl codec now userSessionsKey rest sessions s2))"

definition getUserSessions ::
  "'s redis_client \<Rightarrow> session_codec \<Rightarrow> int \<Rightarrow> string \<Rightarrow> 's
     \<Rightarrow> (string \<times> SessionData) list \<times> 's" where
  "getUserSessions cl codec now user s =
     (case bindR (getRedisClient cl) (\<lambda>redis.
             let userSessionsKey = getUserSessionsKey user
             in bindR (rc_sMembers cl userSessionsKey) (\<lambda>sessionIds.
                  collectSessions cl codec now userSessionsKey sessionIds [])) s of
        (Inl error, s') \<Rightarrow> ([], s')
      | (Inr sessions, s') \<Rightarrow> (sessions, s'))"

text \<open>
  Reading the in-memory store directly: the members of a user's session set, and whether
  session data is stored under a session id, at the instant \<open>now\<close>.
\<close>

definition sessionSet :: "int \<Rightarrow> redis \<Rightarrow> string \<Rightarrow> string list" where
  "sessionSet now s user =
     (case live now s (getUserSessionsKey user) of
        None \<Rightarrow> []
      | Some e \<Rightarrow> (case rval e of RSet ms \<Rightarrow> ms | RString v \<Rightarrow> []))"

definition sessionStored :: "int \<Rightarrow> redis \<Rightarrow> string \<Rightarrow> bool" where
  "sessionStored now s sessionId = (live now s (getSessionKey sessionId) \<noteq> None)"

section \<open>Properties\<close>

subsection \<open>Decimal text\<close>

lemma digit_cases: "d < 10 \<Longrightarrow> d \<in> {0,1,2,3,4,5,6,7,8,9::nat}"
  by auto

lemma digit_val_char: "d < 10 \<Longrightarrow> digit_val (digit_char d) = d"
  by (drule digit_cases) (auto simp: digit_val_def digit_char_def)

lemma is_digit_char: "d < 10 \<Longrightarrow> is_digit (digit_char d)"
  by (drule digit_cases) (auto simp: is_digit_def digit_char_def)

lemma digit_char_zero: "d < 10 \<Longrightarrow> digit_char d = CHR ''0'' \<longleftrightarrow> d = 0"
  by (drule digit_cases) (auto simp: digit_char_def)

lemma is_digit_not_minus: "is_digit c \<Longrightarrow> c \<noteq> CHR ''-''"
  by (auto simp: is_digit_def)

lemma show_nat_nonempty: "show_nat n \<noteq> []"
  by (subst show_nat.simps) simp

lemma show_nat_digits: "list_all is_digit (show_nat n)"
proof (induction n rule: show_nat.induct)
  case (1 n)
  show ?case
  proof (cases "n < 10")
    case True
    then show ?thesis by (subst show_nat.simps) (simp add: is_digit_char)
  next
    case False
    with 1 show ?thesis by (subst show_nat.simps) (simp add: is_digit_char)
  qed
qed

lemma show_nat_value: "foldl (\<lambda>a c. 10 * a + digit_val c) 0 (show_nat n) = n"
proof (induction n rule: show_nat.induct)
  case (1 n)
  show ?case
  proof (cases "n < 10")
    case True
    then show ?thesis by (subst show_nat.simps) (simp add: digit_val_char)
  next
    case False
    with 1 show ?thesis by (subst show_nat.simps) (simp add: digit_val_char)
  qed
qed

lemma show_nat_hd: "0 < n \<Longrightarrow> hd (show_nat n) \<noteq> CHR ''0''"
proof (induction n rule: show_nat.induct)
  case (1 n)
  show ?case
  proof (cases "n < 10")
    case True
    with 1(2) show ?thesis by (subst show_nat.simps) (simp add: digit_char_zero)
  next
    case False
    then have "0 < n div 10" by simp
    with 1(1) False have "hd (show_nat (n div 10)) \<noteq> CHR ''0''" by simp
    with False show ?thesis by (subst show_nat.simps) (simp add: show_nat_nonempty)
  qed
qed

lemma show_nat_zero: "show_nat 0 = ''0''"
  by (subst show_nat.simps) (simp add: digit_char_def)

lemma parse_nat_show_nat: "parse_nat (show_nat n) = Some n"
proof (cases "n = 0")
  case True
  then show ?thesis by (simp add: show_nat_zero parse_nat_def is_digit_def digit_val_def)
next
  case False
  then show ?thesis
    using show_nat_hd [of n]
    by (simp add: parse_nat_def show_nat_nonempty show_nat_digits show_nat_value)
qed

lemma show_nat_hd_digit: "is_digit (hd (show_nat n))"
  using show_nat_digits [of n] show_nat_nonempty [of n]
  by (cases "show_nat n") auto

lemma parse_int_show_int: "parse_int (show_int i) = Some i"
proof (cases "i < 0")
  case True
  then show ?thesis
    by (simp add: parse_int_def show_int_def parse_nat_show_nat)
next
  case False
  then show ?thesis
    using is_digit_not_minus [OF show_nat_hd_digit [of "nat i"]]
    by (simp add: parse_int_def show_int_def parse_nat_show_nat show_nat_nonempty)
qed

subsection \<open>Rate limiter\<close>

lemma bindR_Inr: "m s = (Inr a, s') \<Longrightarrow> bindR m f s = f a s'"
  by (simp add: bindR_def)

lemma bindR_Inl: "m s = (Inl e, s') \<Longrightarrow> bindR m f s = (Inl e, s')"
  by (simp add: bindR_def)

lemma returnR_apply: "returnR a s = (Inr a, s)"
  by (simp add: returnR_def)

lemma getRedisClient_ready: "rc_ready cl s \<Longrightarrow> getRedisClient cl s = (Inr (), s)"
  by (simp add: getRedisClient_def)

lemma getRedisClient_down: "\<not> rc_ready cl s \<Longrightarrow> getRedisClient cl s = (Inl NotConnected, s)"
  by (simp add: getRedisClient_def)

lemma redis_at_simps:
  "rc_ready (redis_at now) = connected"
  "rc_incr (redis_at now) k = r_incrBy now k 1"
  "rc_expire (redis_at now) = r_expire now"
  by (simp_all add: redis_at_def)


lemma first_call:
  assumes "connected s" and "live t s (rateLimitKey key (t div windowMs opts)) = None"
  shows "checkRateLimit (redis_at t) opts key t s =
     (\<lparr>totalHits = 1, totalHitsPerWindow = 1, remainingPoints = maxRequests opts - 1,
       msBeforeNext = (t div windowMs opts) * windowMs opts + windowMs opts - t,
       isFirstInDuration = True\<rparr>,
      s\<lparr>kv := (kv s)(rateLimitKey key (t div windowMs opts) \<mapsto>
                 \<lparr>rval = RString (show_int 1), rexp = Some (t + ceil_div (windowMs opts) 1000 * 1000)\<rparr>),
        journal := journal s @ [CIncrBy (rateLimitKey key (t div windowMs opts)) 1,
                                CExpire (rateLimitKey key (t div windowMs opts)) (ceil_div (windowMs opts) 1000)]\<rparr>)"
  using assms
  by (simp add: checkRateLimit_def checkRateLimit_try_def bindR_def returnR_def getRedisClient_def
      redis_at_simps r_incrBy_def r_expire_def log_cmd_def put_def live_def Let_def)

lemma later_call:
  assumes "connected s"
    and "kv s (rateLimitKey key (t div windowMs opts)) = Some \<lparr>rval = RString (show_int c), rexp = Some e\<rparr>"
    and "t < e" and "0 < c"
  shows "checkRateLimit (redis_at t) opts key t s =
     (\<lparr>totalHits = c + 1, totalHitsPerWindow = c + 1, remainingPoints = maxRequests opts - (c + 1),
       msBeforeNext = (t div windowMs opts) * windowMs opts + windowMs opts - t,
       isFirstInDuration = False\<rparr>,
      s\<lparr>kv := (kv s)(rateLimitKey key (t div windowMs opts) \<mapsto>
                 \<lparr>rval = RString (show_int (c + 1)), rexp = Some e\<rparr>),
        journal := journal s @ [CIncrBy (rateLimitKey key (t div windowMs opts)) 1]\<rparr>)"
  using assms
  by (simp add: checkRateLimit_def checkRateLimit_try_def bindR_def returnR_def getRedisClient_def
      redis_at_simps r_incrBy_def r_expire_def log_cmd_def put_def live_def Let_def parse_int_show_int)

lemma window_bounds:
  fixes t :: int
  assumes "0 < m" and "t div m = w"
  shows "w * m \<le> t" and "t < (w + 1) * m"
proof -
  have "t = w * m + t mod m" using assms(2) by (metis div_mult_mod_eq)
  moreover have "0 \<le> t mod m" "t mod m < m" using assms(1) by simp_all
  ultimately show "w * m \<le> t" and "t < (w + 1) * m" by (simp_all add: algebra_simps)
qed

lemma ceil_div_1000: "m \<le> ceil_div m 1000 * 1000"
proof -
  have "(- m) div 1000 * 1000 \<le> - m" by (simp add: algebra_simps)
  then show ?thesis by (simp add: ceil_div_def)
qed

lemma calls_from_count:
  assumes "0 < windowMs opts" and "\<forall>t\<in>set ts. t div windowMs opts = w"
    and "connected s"
    and "kv s (rateLimitKey key w) = Some \<lparr>rval = RString (show_int c), rexp = Some e\<rparr>"
    and "(w + 1) * windowMs opts \<le> e" and "0 < c"
  shows "map totalHits (fst (checkRateLimit_calls opts key ts s)) = [c + 1..c + int (length ts)]
       \<and> map remainingPoints (fst (checkRateLimit_calls opts key ts s))
           = map (\<lambda>i. maxRequests opts - i) [c + 1..c + int (length ts)]
       \<and> connected (snd (checkRateLimit_calls opts key ts s))
       \<and> kv (snd (checkRateLimit_calls opts key ts s)) (rateLimitKey key w)
           = Some \<lparr>rval = RString (show_int (c + int (length ts))), rexp = Some e\<rparr>
       \<and> journal (snd (checkRateLimit_calls opts key ts s))
           = journal s @ replicate (length ts) (CIncrBy (rateLimitKey key w) 1)"
  using assms(2-)
proof (induction ts arbitrary: s c)
  case Nil
  then show ?case by simp
next
  case (Cons t ts)
  have w: "t div windowMs opts = w" using Cons.prems(1) by simp
  have "t < (w + 1) * windowMs opts" using window_bounds(2) [OF assms(1) w] .
  then have live: "t < e" using Cons.prems(4) by simp
  define s1 where "s1 = s\<lparr>kv := (kv s)(rateLimitKey key w \<mapsto>
                 \<lparr>rval = RString (show_int (c + 1)), rexp = Some e\<rparr>),
        journal := journal s @ [CIncrBy (rateLimitKey key w) 1]\<rparr>"
  have step: "checkRateLimit (redis_at t) opts key t s =
     (\<lparr>totalHits = c + 1, totalHitsPerWindow = c + 1, remainingPoints = maxRequests opts - (c + 1),
       msBeforeNext = (t div windowMs opts) * windowMs opts + windowMs opts - t,
       isFirstInDuration = False\<rparr>, s1)"
    unfolding s1_def using later_call [of s key t opts c e] Cons.prems(2,3,5) live w by simp
  have ih: "map totalHits (fst (checkRateLimit_calls opts key ts s1)) = [c + 1 + 1..c + 1 + int (length ts)]
       \<and> map remainingPoints (fst (checkRateLimit_calls opts key ts s1))
           = map (\<lambda>i. maxRequests opts - i) [c + 1 + 1..c + 1 + int (length ts)]
       \<and> connected (snd (checkRateLimit_calls opts key ts s1))
       \<and> kv (snd (checkRateLimit_calls opts key ts s1)) (rateLimitKey key w)
           = Some \<lparr>rval = RString (show_int (c + 1 + int (length ts))), rexp = Some e\<rparr>
       \<and> journal (snd (checkRateLimit_calls opts key ts s1))
           = journal s1 @ replicate (length ts) (CIncrBy (rateLimitKey key w) 1)"
    using Cons.prems by (intro Cons.IH) (simp_all add: s1_def)
  have eq: "c + 1 + int (length ts) = c + int (length (t # ts))" by simp
  have up: "[c + 1..c + int (length (t # ts))] = (c + 1) # [c + 1 + 1..c + int (length (t # ts))]"
    by (rule upto_rec1) simp
  have j: "journal s1 @ replicate (length ts) (CIncrBy (rateLimitKey key w) 1)
         = journal s @ replicate (length (t # ts)) (CIncrBy (rateLimitKey key w) 1)"
    by (simp add: s1_def)
  show ?case
    using ih unfolding eq up j
    by (cases "checkRateLimit_calls opts key ts s1") (simp add: step)
qed

lemma calls_from_absent:
  assumes "0 < windowMs opts" and "\<forall>t\<in>set (t1 # ts). t div windowMs opts = w"
    and "connected s" and "live t1 s (rateLimitKey key w) = None"
  shows "map totalHits (fst (checkRateLimit_calls opts key (t1 # ts) s)) = [1..1 + int (length ts)]
       \<and> map remainingPoints (fst (checkRateLimit_calls opts key (t1 # ts) s))
           = map (\<lambda>i. maxRequests opts - i) [1..1 + int (length ts)]
       \<and> kv (snd (checkRateLimit_calls opts key (t1 # ts) s)) (rateLimitKey key w)
           = Some \<lparr>rval = RString (show_int (1 + int (length ts))),
                   rexp = Some (t1 + ceil_div (windowMs opts) 1000 * 1000)\<rparr>
       \<and> journal (snd (checkRateLimit_calls opts key (t1 # ts) s))
           = journal s @ [CIncrBy (rateLimitKey key w) 1,
                          CExpire (rateLimitKey key w) (ceil_div (windowMs opts) 1000)]
               @ replicate (length ts) (CIncrBy (rateLimitKey key w) 1)"
proof -
  have w: "t1 div windowMs opts = w" using assms(2) by simp
  define e where "e = t1 + ceil_div (windowMs opts) 1000 * 1000"
  define s1 where "s1 = s\<lparr>kv := (kv s)(rateLimitKey key w \<mapsto>
                 \<lparr>rval = RString (show_int 1), rexp = Some e\<rparr>),
        journal := journal s @ [CIncrBy (rateLimitKey key w) 1,
                                CExpire (rateLimitKey key w) (ceil_div (windowMs opts) 1000)]\<rparr>"
  have step: "checkRateLimit (redis_at t1) opts key t1 s =
     (\<lparr>totalHits = 1, totalHitsPerWindow = 1, remainingPoints = maxRequests opts - 1,
       msBeforeNext = (t1 div windowMs opts) * windowMs opts + windowMs opts - t1,
       isFirstInDuration = True\<rparr>, s1)"
    unfolding s1_def e_def using first_call [of s t1 key opts] assms(3,4) w by simp
  have "w * windowMs opts \<le> t1" using window_bounds(1) [OF assms(1) w] .
  moreover have "windowMs opts \<le> ceil_div (windowMs opts) 1000 * 1000" by (rule ceil_div_1000)
  ultimately have e: "(w + 1) * windowMs opts \<le> e" by (simp add: e_def algebra_simps)
  have rest: "map totalHits (fst (checkRateLimit_calls opts key ts s1)) = [1 + 1..1 + int (length ts)]
       \<and> map remainingPoints (fst (checkRateLimit_calls opts key ts s1))
           = map (\<lambda>i. maxRequests opts - i) [1 + 1..1 + int (length ts)]
       \<and> connected (snd (checkRateLimit_calls opts key ts s1))
       \<and> kv (snd (checkRateLimit_calls opts key ts s1)) (rateLimitKey key w)
           = Some \<lparr>rval = RString (show_int (1 + int (length ts))), rexp = Some e\<rparr>
       \<and> journal (snd (checkRateLimit_calls opts key ts s1))
           = journal s1 @ replicate (length ts) (CIncrBy (rateLimitKey key w) 1)"
    using assms(1,2,3) e by (intro calls_from_count) (simp_all add: s1_def)
  have up: "[1..1 + int (length ts)] = 1 # [1 + 1..1 + int (length ts)]"
    by (rule upto_rec1) simp
  have j: "journal s1 = journal s @ [CIncrBy (rateLimitKey key w) 1,
                          CExpire (rateLimitKey key w) (ceil_div (windowMs opts) 1000)]"
    by (simp add: s1_def)
  show ?thesis
    using rest unfolding up j e_def [symmetric]
    by (cases "checkRateLimit_calls opts key ts s1") (simp add: step)
qed

lemma checkRateLimit_commands:
  assumes "rc_ready cl s" and "rc_incr cl (rateLimitKey key (now div windowMs opts)) s = (Inr c, s1)"
  shows "snd (checkRateLimit cl opts key now s)
       = (if c = 1
          then snd (rc_expire cl (rateLimitKey key (now div windowMs opts))
                      (ceil_div (windowMs opts) 1000) s1)
          else s1)"
  using assms
  by (auto simp: checkRateLimit_def checkRateLimit_try_def bindR_def returnR_def
      getRedisClient_def Let_def split: prod.splits sum.splits)

lemma redis_at_decr: "rc_decr (redis_at now) k = r_incrBy now k (- 1)"
  by (simp add: redis_at_def)

lemmas limiter_eval =
  checkRateLimit_def checkRateLimit_try_def decrementCounter_def bindR_def returnR_def
  getRedisClient_def redis_at_simps redis_at_decr r_incrBy_def r_expire_def log_cmd_def put_def
  live_def Let_def rateLimitKey_def ceil_div_def show_int_def show_nat.simps digit_char_def
  parse_int_def parse_nat_def is_digit_def digit_val_def

lemma checkRateLimit_result:
  assumes "rc_ready cl s" and "rc_incr cl (rateLimitKey key (now div windowMs opts)) s = (Inr c, s1)"
    and "c = 1 \<longrightarrow> (\<exists>r s2. rc_expire cl (rateLimitKey key (now div windowMs opts))
                                (ceil_div (windowMs opts) 1000) s1 = (Inr r, s2))"
  shows "totalHits (fst (checkRateLimit cl opts key now s)) = c
       \<and> remainingPoints (fst (checkRateLimit cl opts key now s)) = maxRequests opts - c"
  using assms
  by (auto simp: checkRateLimit_def checkRateLimit_try_def bindR_def returnR_def
      getRedisClient_def Let_def)

text \<open>
  Claim C1, as the code has it. For every client, a call of \<open>checkRateLimit(k)\<close> whose
  store commands succeed returns as \<open>totalHits\<close> the count its own increment yields, and
  \<open>remainingPoints = maxRequests\<close> minus that count. In a run of \<open>checkRateLimit\<close> calls
  within one window in which nothing else changes the counter, starting with no counter
  stored for that window, the i-th call returns \<open>totalHits = i\<close> and
  \<open>remainingPoints = maxRequests - i\<close>, and after N calls the stored counter is N: every
  increment is counted, also those beyond the limit.
\<close>

theorem checkRateLimit_counts_in_window:
  assumes "0 < windowMs opts" and "connected s"
    and "\<forall>t\<in>set ts. t div windowMs opts = w"
    and "kv s (rateLimitKey key w) = None"
  shows "map totalHits (fst (checkRateLimit_calls opts key ts s)) = [1..int (length ts)]
       \<and> map remainingPoints (fst (checkRateLimit_calls opts key ts s))
           = map (\<lambda>i. maxRequests opts - i) [1..int (length ts)]
       \<and> (\<forall>i < length ts.
            totalHits (fst (checkRateLimit_calls opts key ts s) ! i) = int i + 1
            \<and> remainingPoints (fst (checkRateLimit_calls opts key ts s) ! i)
                = maxRequests opts - (int i + 1))
       \<and> (ts \<noteq> [] \<longrightarrow>
            map_option rval (kv (snd (checkRateLimit_calls opts key ts s)) (rateLimitKey key w))
              = Some (RString (show_int (int (length ts)))))
       \<and> (rc_ready cl s0 \<and> rc_incr cl (rateLimitKey key (now div windowMs opts)) s0 = (Inr c, s1)
            \<and> (c = 1 \<longrightarrow> (\<exists>r s2. rc_expire cl (rateLimitKey key (now div windowMs opts))
                                       (ceil_div (windowMs opts) 1000) s1 = (Inr r, s2)))
            \<longrightarrow> totalHits (fst (checkRateLimit cl opts key now s0)) = c
              \<and> remainingPoints (fst (checkRateLimit cl opts key now s0)) = maxRequests opts - c)"
proof -
  let ?infos = "fst (checkRateLimit_calls opts key ts s)"
  have lists: "map totalHits ?infos = [1..int (length ts)]
       \<and> map remainingPoints ?infos = map (\<lambda>i. maxRequests opts - i) [1..int (length ts)]
       \<and> (ts \<noteq> [] \<longrightarrow>
            map_option rval (kv (snd (checkRateLimit_calls opts key ts s)) (rateLimitKey key w))
              = Some (RString (show_int (int (length ts)))))"
  proof (cases ts)
    case Nil
    then show ?thesis by simp
  next
    case (Cons t1 rest)
    have absent: "live t1 s (rateLimitKey key w) = None"
      using assms(4) by (simp add: live_def)
    have n: "1 + int (length rest) = int (length ts)" using Cons by simp
    show ?thesis
      using calls_from_absent [OF assms(1) assms(3) [unfolded Cons] assms(2) absent]
      unfolding n Cons [symmetric] by simp
  qed
  have len: "length ?infos = length ts"
  proof -
    from lists have "map totalHits ?infos = [1..int (length ts)]" by blast
    then have "length (map totalHits ?infos) = length [1..int (length ts)]" by (rule arg_cong)
    then show ?thesis by simp
  qed
  have each: "totalHits (?infos ! i) = int i + 1
            \<and> remainingPoints (?infos ! i) = maxRequests opts - (int i + 1)"
    if "i < length ts" for i
  proof -
    have up: "[1..int (length ts)] ! i = 1 + int i"
      using that by (intro nth_upto) simp
    have "totalHits (?infos ! i) = map totalHits ?infos ! i"
      using that len by simp
    moreover have "remainingPoints (?infos ! i) = map remainingPoints ?infos ! i"
      using that len by simp
    ultimately show ?thesis
      using lists up that by simp
  qed
  have single: "totalHits (fst (checkRateLimit cl opts key now s0)) = c
              \<and> remainingPoints (fst (checkRateLimit cl opts key now s0)) = maxRequests opts - c"
    if "rc_ready cl s0 \<and> rc_incr cl (rateLimitKey key (now div windowMs opts)) s0 = (Inr c, s1)
        \<and> (c = 1 \<longrightarrow> (\<exists>r s2. rc_expire cl (rateLimitKey key (now div windowMs opts))
                                   (ceil_div (windowMs opts) 1000) s1 = (Inr r, s2)))"
    using that by (intro checkRateLimit_result) blast+
  show ?thesis using lists each single by blast
qed

theorem checkRateLimit_counts_in_window_witness:
  "map totalHits (fst (checkRateLimit_calls \<lparr>windowMs = 60000, maxRequests = 3\<rparr> ''ip:1.2.3.4''
       [1700000000000, 1700000000001, 1700000020000, 1700000039999]
       \<lparr>connected = True, kv = Map.empty, journal = []\<rparr>)) = [1, 2, 3, 4]
   \<and> map remainingPoints (fst (checkRateLimit_calls \<lparr>windowMs = 60000, maxRequests = 3\<rparr> ''ip:1.2.3.4''
       [1700000000000, 1700000000001, 1700000020000, 1700000039999]
       \<lparr>connected = True, kv = Map.empty, journal = []\<rparr>)) = [2, 1, 0, - 1]
   \<and> map_option rval (kv (snd (checkRateLimit_calls \<lparr>windowMs = 60000, maxRequests = 3\<rparr> ''ip:1.2.3.4''
       [1700000000000, 1700000000001, 1700000020000, 1700000039999]
       \<lparr>connected = True, kv = Map.empty, journal = []\<rparr>)) (rateLimitKey ''ip:1.2.3.4'' 28333333))
       = Some (RString ''4'')
   \<and> totalHits (fst (checkRateLimit (redis_at 1700000000500) \<lparr>windowMs = 60000, maxRequests = 3\<rparr>
        ''ip:1.2.3.4'' 1700000000500
        \<lparr>connected = True,
         kv = [''rate_limit:ip:1.2.3.4:28333333'' \<mapsto>
                 \<lparr>rval = RString ''7'', rexp = Some 1700000061000\<rparr>],
         journal = []\<rparr>)) = 8
   \<and> remainingPoints (fst (checkRateLimit (redis_at 1700000000500) \<lparr>windowMs = 60000, maxRequests = 3\<rparr>
        ''ip:1.2.3.4'' 1700000000500
        \<lparr>connected = True,
         kv = [''rate_limit:ip:1.2.3.4:28333333'' \<mapsto>
                 \<lparr>rval = RString ''7'', rexp = Some 1700000061000\<rparr>],
         journal = []\<rparr>)) = - 5"
proof -
  let ?opts = "\<lparr>windowMs = 60000, maxRequests = 3\<rparr>"
  let ?s = "\<lparr>connected = True, kv = Map.empty, journal = []\<rparr>"
  let ?ts = "[1700000000000, 1700000000001, 1700000020000, 1700000039999 :: int]"
  have h1: "0 < windowMs ?opts" by simp
  have h2: "connected ?s" by simp
  have h3: "\<forall>t\<in>set ?ts. t div windowMs ?opts = 28333333" by simp
  have h4: "kv ?s (rateLimitKey ''ip:1.2.3.4'' 28333333) = None" by simp
  have four: "show_int 4 = ''4''" by (simp add: show_int_def show_nat.simps digit_char_def)
  have upto4: "[1..4::int] = [1, 2, 3, 4]" by (simp add: upto_rec1)
  let ?before = "\<lparr>connected = True,
         kv = [''rate_limit:ip:1.2.3.4:28333333'' \<mapsto>
                 \<lparr>rval = RString ''7'', rexp = Some 1700000061000\<rparr>],
         journal = []\<rparr>"
  let ?after = "\<lparr>connected = True,
         kv = [''rate_limit:ip:1.2.3.4:28333333'' \<mapsto>
                 \<lparr>rval = RString ''8'', rexp = Some 1700000061000\<rparr>],
         journal = [CIncrBy ''rate_limit:ip:1.2.3.4:28333333'' 1]\<rparr>"
  have h5: "rc_ready (redis_at 1700000000500) ?before
      \<and> rc_incr (redis_at 1700000000500)
            (rateLimitKey ''ip:1.2.3.4'' (1700000000500 div windowMs ?opts)) ?before = (Inr 8, ?after)
      \<and> ((8::int) = 1 \<longrightarrow> (\<exists>r s2. rc_expire (redis_at 1700000000500)
            (rateLimitKey ''ip:1.2.3.4'' (1700000000500 div windowMs ?opts))
            (ceil_div (windowMs ?opts) 1000) ?after = (Inr r, s2)))"
    by (simp add: limiter_eval)
  note inst = checkRateLimit_counts_in_window [OF h1 h2 h3 h4,
      where cl = "redis_at 1700000000500" and ?s0.0 = ?before and now = 1700000000500
        and c = 8 and ?s1.0 = ?after]
  from inst h5
  have single: "totalHits (fst (checkRateLimit (redis_at 1700000000500) ?opts ''ip:1.2.3.4''
                   1700000000500 ?before)) = 8
      \<and> remainingPoints (fst (checkRateLimit (redis_at 1700000000500) ?opts ''ip:1.2.3.4''
                   1700000000500 ?before)) = maxRequests ?opts - 8"
    by blast
  from inst
  have "map totalHits (fst (checkRateLimit_calls ?opts ''ip:1.2.3.4'' ?ts ?s)) = [1..int (length ?ts)]
       \<and> map remainingPoints (fst (checkRateLimit_calls ?opts ''ip:1.2.3.4'' ?ts ?s))
           = map (\<lambda>i. maxRequests ?opts - i) [1..int (length ?ts)]
       \<and> (?ts \<noteq> [] \<longrightarrow>
            map_option rval (kv (snd (checkRateLimit_calls ?opts ''ip:1.2.3.4'' ?ts ?s))
               (rateLimitKey ''ip:1.2.3.4'' 28333333))
              = Some (RString (show_int (int (length ?ts)))))"
    by blast
  then show ?thesis
    using single by (simp add: four upto4 del: checkRateLimit_calls.simps)
qed

text \<open>
  Claim C1 as stated fails. With \<open>skipSuccessfulRequests\<close> the middleware calls
  \<open>decrementCounter\<close> after a successful response. Of two \<open>checkRateLimit\<close> calls in the
  same window with such a decrement in between, the second returns \<open>totalHits = 1\<close> and
  \<open>remainingPoints = 2\<close>, where the claim has 2 and 1.
\<close>

theorem decrement_between_calls_counterexample:
  "1700000000000 div windowMs \<lparr>windowMs = 60000, maxRequests = 3\<rparr>
     = 1700000000200 div windowMs \<lparr>windowMs = 60000, maxRequests = 3\<rparr>
   \<and> totalHits (fst (checkRateLimit (redis_at 1700000000000) \<lparr>windowMs = 60000, maxRequests = 3\<rparr>
        ''ip:1.2.3.4'' 1700000000000 \<lparr>connected = True, kv = Map.empty, journal = []\<rparr>)) = 1
   \<and> totalHits (fst (checkRateLimit (redis_at 1700000000200) \<lparr>windowMs = 60000, maxRequests = 3\<rparr>
        ''ip:1.2.3.4'' 1700000000200
        (decrementCounter (redis_at 1700000000100) \<lparr>windowMs = 60000, maxRequests = 3\<rparr>
           ''ip:1.2.3.4'' 1700000000100
           (snd (checkRateLimit (redis_at 1700000000000) \<lparr>windowMs = 60000, maxRequests = 3\<rparr>
              ''ip:1.2.3.4'' 1700000000000
              \<lparr>connected = True, kv = Map.empty, journal = []\<rparr>))))) = 1
   \<and> remainingPoints (fst (checkRateLimit (redis_at 1700000000200) \<lparr>windowMs = 60000, maxRequests = 3\<rparr>
        ''ip:1.2.3.4'' 1700000000200
        (decrementCounter (redis_at 1700000000100) \<lparr>windowMs = 60000, maxRequests = 3\<rparr>
           ''ip:1.2.3.4'' 1700000000100
           (snd (checkRateLimit (redis_at 1700000000000) \<lparr>windowMs = 60000, maxRequests = 3\<rparr>
              ''ip:1.2.3.4'' 1700000000000
              \<lparr>connected = True, kv = Map.empty, journal = []\<rparr>))))) = 2"
  by (simp add: limiter_eval)


text \<open>
  Claim C8, as the code has it. For every client, \<open>checkRateLimit\<close> sends \<open>EXPIRE\<close> with
  \<open>ceil(windowMs / 1000)\<close> seconds, the window length rounded up to whole seconds, exactly
  when its increment returns 1, and sends nothing after an increment that returns another
  count. In a run of \<open>checkRateLimit\<close> calls within one window, starting with no counter
  stored, that is once: the commands sent are one increment followed by one \<open>EXPIRE\<close>, then
  increments only, and the expiry stored after the run is the one set by the first call.
\<close>

theorem checkRateLimit_expiry_on_count_one:
  assumes "0 < windowMs opts" and "connected s"
    and "\<forall>t\<in>set (t1 # rest). t div windowMs opts = w"
    and "kv s (rateLimitKey key w) = None"
  shows "journal (snd (checkRateLimit_calls opts key (t1 # rest) s))
           = journal s @ [CIncrBy (rateLimitKey key w) 1,
                          CExpire (rateLimitKey key w) (ceil_div (windowMs opts) 1000)]
               @ replicate (length rest) (CIncrBy (rateLimitKey key w) 1)
       \<and> map_option rexp (kv (snd (checkRateLimit_calls opts key (t1 # rest) s)) (rateLimitKey key w))
           = Some (Some (t1 + ceil_div (windowMs opts) 1000 * 1000))
       \<and> windowMs opts \<le> ceil_div (windowMs opts) 1000 * 1000
       \<and> ceil_div (windowMs opts) 1000 * 1000 < windowMs opts + 1000
       \<and> (rc_ready cl s0 \<and> rc_incr cl (rateLimitKey key (now div windowMs opts)) s0 = (Inr c, s1)
            \<longrightarrow> snd (checkRateLimit cl opts key now s0)
                  = (if c = 1
                     then snd (rc_expire cl (rateLimitKey key (now div windowMs opts))
                                 (ceil_div (windowMs opts) 1000) s1)
                     else s1))"
proof -
  have absent: "live t1 s (rateLimitKey key w) = None"
    using assms(4) by (simp add: live_def)
  have up: "ceil_div (windowMs opts) 1000 * 1000 < windowMs opts + 1000"
  proof -
    have "- windowMs opts = (- windowMs opts) div 1000 * 1000 + (- windowMs opts) mod 1000"
      by simp
    moreover have "(- windowMs opts) mod 1000 < 1000" by simp
    ultimately show ?thesis unfolding ceil_div_def by linarith
  qed
  show ?thesis
    using calls_from_absent [OF assms(1) assms(3) assms(2) absent] ceil_div_1000 [of "windowMs opts"] up
      checkRateLimit_commands [of cl s0 key now opts c s1]
    by simp
qed

theorem checkRateLimit_expiry_on_count_one_witness:
  "journal (snd (checkRateLimit_calls \<lparr>windowMs = 1500, maxRequests = 2\<rparr> ''u''
       [3000, 3700, 4499] \<lparr>connected = True, kv = Map.empty, journal = []\<rparr>))
     = [CIncrBy (rateLimitKey ''u'' 2) 1, CExpire (rateLimitKey ''u'' 2) 2,
        CIncrBy (rateLimitKey ''u'' 2) 1, CIncrBy (rateLimitKey ''u'' 2) 1]
   \<and> map_option rexp (kv (snd (checkRateLimit_calls \<lparr>windowMs = 1500, maxRequests = 2\<rparr> ''u''
       [3000, 3700, 4499] \<lparr>connected = True, kv = Map.empty, journal = []\<rparr>)) (rateLimitKey ''u'' 2))
     = Some (Some 5000)
   \<and> journal (snd (checkRateLimit (redis_at 3100) \<lparr>windowMs = 1500, maxRequests = 2\<rparr> ''u'' 3100
       \<lparr>connected = True,
        kv = [''rate_limit:u:2'' \<mapsto> \<lparr>rval = RString ''1'', rexp = Some 5000\<rparr>],
        journal = []\<rparr>))
     = [CIncrBy ''rate_limit:u:2'' 1]"
proof -
  let ?opts = "\<lparr>windowMs = 1500, maxRequests = 2\<rparr>"
  let ?s = "\<lparr>connected = True, kv = Map.empty, journal = []\<rparr>"
  let ?before = "\<lparr>connected = True,
        kv = [''rate_limit:u:2'' \<mapsto> \<lparr>rval = RString ''1'', rexp = Some 5000\<rparr>],
        journal = []\<rparr>"
  let ?after = "\<lparr>connected = True,
        kv = [''rate_limit:u:2'' \<mapsto> \<lparr>rval = RString ''2'', rexp = Some 5000\<rparr>],
        journal = [CIncrBy ''rate_limit:u:2'' 1]\<rparr>"
  have h1: "0 < windowMs ?opts" by simp
  have h2: "connected ?s" by simp
  have h3: "\<forall>t\<in>set [3000, 3700, 4499 :: int]. t div windowMs ?opts = 2" by simp
  have h4: "kv ?s (rateLimitKey ''u'' 2) = None" by simp
  have c: "ceil_div 1500 1000 = 2" by (simp add: ceil_div_def)
  have h5: "rc_ready (redis_at 3100) ?before
      \<and> rc_incr (redis_at 3100) (rateLimitKey ''u'' (3100 div windowMs ?opts)) ?before = (Inr 2, ?after)"
    by (simp add: limiter_eval)
  note inst = checkRateLimit_expiry_on_count_one [OF h1 h2 h3 h4,
      where cl = "redis_at 3100" and ?s0.0 = ?before and now = 3100 and c = 2 and ?s1.0 = ?after]
  have rk: "rateLimitKey ''u'' 2 = ''rate_limit:u:2''"
    by (simp add: rateLimitKey_def show_int_def show_nat.simps digit_char_def)
  from inst h5
  have later: "snd (checkRateLimit (redis_at 3100) ?opts ''u'' 3100 ?before) = ?after"
    by (simp add: rk)
  from inst have run: "journal (snd (checkRateLimit_calls ?opts ''u'' [3000, 3700, 4499] ?s))
           = journal ?s @ [CIncrBy (rateLimitKey ''u'' 2) 1,
                          CExpire (rateLimitKey ''u'' 2) (ceil_div (windowMs ?opts) 1000)]
               @ replicate (length [3700, 4499 :: int]) (CIncrBy (rateLimitKey ''u'' 2) 1)
       \<and> map_option rexp (kv (snd (checkRateLimit_calls ?opts ''u'' [3000, 3700, 4499] ?s))
             (rateLimitKey ''u'' 2))
           = Some (Some (3000 + ceil_div (windowMs ?opts) 1000 * 1000))"
    by blast
  from run later show ?thesis
    by (simp add: c del: checkRateLimit_calls.simps)
qed

text \<open>
  Claim C8 as stated fails. With \<open>skipSuccessfulRequests\<close> the middleware decrements the
  counter after a successful response; the next \<open>checkRateLimit\<close> in the same window then
  takes the count from 0 to 1 again and sends a second \<open>EXPIRE\<close>, which moves the stored
  expiry from 5000 to 5200.
\<close>

theorem expiry_set_again_counterexample:
  "journal (snd (checkRateLimit (redis_at 3200) \<lparr>windowMs = 1500, maxRequests = 2\<rparr> ''u'' 3200
      (decrementCounter (redis_at 3100) \<lparr>windowMs = 1500, maxRequests = 2\<rparr> ''u'' 3100
        (snd (checkRateLimit (redis_at 3000) \<lparr>windowMs = 1500, maxRequests = 2\<rparr> ''u'' 3000
           \<lparr>connected = True, kv = Map.empty, journal = []\<rparr>)))))
     = [CIncrBy ''rate_limit:u:2'' 1, CExpire ''rate_limit:u:2'' 2,
        CIncrBy ''rate_limit:u:2'' (- 1),
        CIncrBy ''rate_limit:u:2'' 1, CExpire ''rate_limit:u:2'' 2]
   \<and> map_option rexp (kv (snd (checkRateLimit (redis_at 3000) \<lparr>windowMs = 1500, maxRequests = 2\<rparr> ''u'' 3000
           \<lparr>connected = True, kv = Map.empty, journal = []\<rparr>)) ''rate_limit:u:2'')
     = Some (Some 5000)
   \<and> map_option rexp (kv (snd (checkRateLimit (redis_at 3200) \<lparr>windowMs = 1500, maxRequests = 2\<rparr> ''u'' 3200
      (decrementCounter (redis_at 3100) \<lparr>windowMs = 1500, maxRequests = 2\<rparr> ''u'' 3100
        (snd (checkRateLimit (redis_at 3000) \<lparr>windowMs = 1500, maxRequests = 2\<rparr> ''u'' 3000
           \<lparr>connected = True, kv = Map.empty, journal = []\<rparr>))))) ''rate_limit:u:2'')
     = Some (Some 5200)"
  by (simp add: limiter_eval)

text \<open>
  Claim C6. For every client: if \<open>getRedisClient\<close> refuses, or the increment rejects, or
  the increment yields 1 and the \<open>EXPIRE\<close> that follows rejects, then
  \<open>checkRateLimit\<close> returns the permissive result, with
  \<open>remainingPoints = maxRequests\<close> and \<open>isFirstInDuration = true\<close>.
\<close>

theorem checkRateLimit_fails_open:
  assumes "\<not> rc_ready cl s
         \<or> (\<exists>e s'. rc_incr cl (rateLimitKey key (now div windowMs opts)) s = (Inl e, s'))
         \<or> (\<exists>s1 e s2. rc_incr cl (rateLimitKey key (now div windowMs opts)) s = (Inr 1, s1)
                \<and> rc_expire cl (rateLimitKey key (now div windowMs opts))
                      (ceil_div (windowMs opts) 1000) s1 = (Inl e, s2))"
  shows "fst (checkRateLimit cl opts key now s) = permissiveInfo opts
       \<and> remainingPoints (fst (checkRateLimit cl opts key now s)) = maxRequests opts
       \<and> isFirstInDuration (fst (checkRateLimit cl opts key now s))"
proof -
  have "fst (checkRateLimit cl opts key now s) = permissiveInfo opts"
    using assms
    by (auto simp: checkRateLimit_def checkRateLimit_try_def bindR_def returnR_def
        getRedisClient_def Let_def)
  then show ?thesis by (simp add: permissiveInfo_def)
qed

theorem checkRateLimit_fails_open_witness:
  "remainingPoints (fst (checkRateLimit (redis_at 3000) \<lparr>windowMs = 1500, maxRequests = 2\<rparr> ''u'' 3000
      \<lparr>connected = True,
       kv = [rateLimitKey ''u'' 2 \<mapsto> \<lparr>rval = RSet [''x''], rexp = None\<rparr>],
       journal = []\<rparr>)) = 2
   \<and> isFirstInDuration (fst (checkRateLimit (redis_at 3000) \<lparr>windowMs = 1500, maxRequests = 2\<rparr> ''u'' 3000
      \<lparr>connected = True,
       kv = [rateLimitKey ''u'' 2 \<mapsto> \<lparr>rval = RSet [''x''], rexp = None\<rparr>],
       journal = []\<rparr>))"
proof -
  let ?opts = "\<lparr>windowMs = 1500, maxRequests = 2\<rparr>"
  let ?s = "\<lparr>connected = True,
       kv = [rateLimitKey ''u'' 2 \<mapsto> \<lparr>rval = RSet [''x''], rexp = None\<rparr>],
       journal = []\<rparr>"
  have "\<exists>e s'. rc_incr (redis_at 3000) (rateLimitKey ''u'' (3000 div windowMs ?opts)) ?s = (Inl e, s')"
    by (simp add: redis_at_def r_incrBy_def live_def)
  then have h: "\<not> rc_ready (redis_at 3000) ?s
         \<or> (\<exists>e s'. rc_incr (redis_at 3000) (rateLimitKey ''u'' (3000 div windowMs ?opts)) ?s = (Inl e, s'))
         \<or> (\<exists>s1 e s2. rc_incr (redis_at 3000) (rateLimitKey ''u'' (3000 div windowMs ?opts)) ?s = (Inr 1, s1)
                \<and> rc_expire (redis_at 3000) (rateLimitKey ''u'' (3000 div windowMs ?opts))
                      (ceil_div (windowMs ?opts) 1000) s1 = (Inl e, s2))"
    by blast
  from checkRateLimit_fails_open [OF h, THEN conjunct2] show ?thesis by simp
qed

subsection \<open>Cache\<close>

lemma takeWhile_label: "c \<notin> set n \<Longrightarrow> takeWhile (\<lambda>x. x \<noteq> c) (n @ c # k) = n"
  by (induction n) auto

lemma namespaced_keys_differ:
  assumes "N1 \<noteq> N2" and "CHR '':'' \<notin> set N1" and "CHR '':'' \<notin> set N2"
  shows "N1 @ '':'' @ k1 \<noteq> N2 @ '':'' @ k2"
proof
  assume "N1 @ '':'' @ k1 = N2 @ '':'' @ k2"
  then have "takeWhile (\<lambda>x. x \<noteq> CHR '':'') (N1 @ CHR '':'' # k1)
           = takeWhile (\<lambda>x. x \<noteq> CHR '':'') (N2 @ CHR '':'' # k2)" by simp
  then have "N1 = N2" using assms(2,3) by (simp add: takeWhile_label)
  with assms(1) show False by simp
qed

lemma buildKey_differ:
  assumes "N1 \<noteq> N2" and "N1 \<noteq> []" and "N2 \<noteq> []"
    and "CHR '':'' \<notin> set N1" and "CHR '':'' \<notin> set N2"
  shows "buildKey k1 (Some N1) \<noteq> buildKey k2 (Some N2)"
  using namespaced_keys_differ [OF assms(1,4,5)] assms(2,3) by (simp add: buildKey_def)

lemma redis_at_cache_simps:
  "rc_ready (redis_at now) = connected"
  "rc_get (redis_at now) = r_get now"
  "rc_setEx (redis_at now) = r_setEx now"
  "rc_del (redis_at now) = r_del now"
  "rc_exists (redis_at now) = r_exists now"
  by (simp_all add: redis_at_def)

lemma live_log_cmd [simp]: "live t (log_cmd c s) k = live t s k"
  by (simp add: live_def log_cmd_def)

lemma connected_log_cmd [simp]: "connected (log_cmd c s) = connected s"
  by (simp add: log_cmd_def)

lemma live_put: "live t (put a e s) k = (if k = a then live t (put a e s) a else live t s k)"
  by (simp add: live_def put_def)

lemma live_put_other [simp]: "k \<noteq> a \<Longrightarrow> live t (put a e s) k = live t s k"
  by (simp add: live_def put_def)

lemma live_remove_other [simp]: "k \<noteq> a \<Longrightarrow> live t (remove a s) k = live t s k"
  by (simp add: live_def remove_def)

lemma connected_put [simp]: "connected (put a e s) = connected s"
  by (simp add: put_def)

lemma connected_remove [simp]: "connected (remove a s) = connected s"
  by (simp add: remove_def)

lemma cache_get_view:
  "fst (cache_get (redis_at t) codec k ns s) =
     (if \<not> connected s then JNull
      else case live t s (buildKey k ns) of
        None \<Rightarrow> JNull
      | Some e \<Rightarrow> (case rval e of
          RSet ms \<Rightarrow> JNull
        | RString text \<Rightarrow> if text = [] then JNull
                         else (case parse codec text of None \<Rightarrow> JNull | Some v \<Rightarrow> v)))"
  by (simp add: cache_get_def bindR_def returnR_def throwR_def getRedisClient_def
      redis_at_cache_simps r_get_def Let_def split: option.splits rvalue.splits)

lemma cache_exists_view:
  "fst (cache_exists (redis_at t) k ns s) = (connected s \<and> live t s (buildKey k ns) \<noteq> None)"
  by (simp add: cache_exists_def bindR_def returnR_def getRedisClient_def
      redis_at_cache_simps r_exists_def Let_def split: option.splits)

lemma cache_set_frame:
  "connected (snd (cache_set (redis_at t) codec k v options s)) = connected s"
  "b \<noteq> buildKey k (namespace options) \<Longrightarrow>
     live t' (snd (cache_set (redis_at t) codec k v options s)) b = live t' s b"
  by (simp_all add: cache_set_def bindR_def returnR_def throwR_def getRedisClient_def
      redis_at_cache_simps r_setEx_def Let_def split: option.splits)

lemma cache_delete_frame:
  "connected (snd (cache_delete (redis_at t) k ns s)) = connected s"
  "b \<noteq> buildKey k ns \<Longrightarrow> live t' (snd (cache_delete (redis_at t) k ns s)) b = live t' s b"
  by (simp_all add: cache_delete_def bindR_def returnR_def getRedisClient_def
      redis_at_cache_simps r_del_def Let_def split: option.splits)

lemma cache_get_frame:
  "kv (snd (cache_get (redis_at t) codec k ns s)) = kv s"
  by (simp add: cache_get_def bindR_def returnR_def throwR_def getRedisClient_def
      redis_at_cache_simps r_get_def Let_def log_cmd_def split: option.splits rvalue.splits)

lemma cache_exists_frame:
  "kv (snd (cache_exists (redis_at t) k ns s)) = kv s"
  by (simp add: cache_exists_def bindR_def returnR_def getRedisClient_def
      redis_at_cache_simps r_exists_def Let_def log_cmd_def split: option.splits)

text \<open>
  Claim C3, as the code has it. For two distinct, non-empty namespaces without a colon and
  any two keys, the effective keys differ, and \<open>get\<close> and \<open>exists\<close> scoped to the first
  report the same before and after a \<open>set\<close> or a \<open>delete\<close> scoped to the second;
  \<open>get\<close> and \<open>exists\<close> themselves change no entry.
\<close>

theorem namespace_isolation_colon_free:
  assumes "N1 \<noteq> N2" and "N1 \<noteq> []" and "N2 \<noteq> []"
    and "CHR '':'' \<notin> set N1" and "CHR '':'' \<notin> set N2"
    and "namespace options = Some N2"
  shows "buildKey k1 (Some N1) \<noteq> buildKey k2 (Some N2)
       \<and> fst (cache_get (redis_at t') codec k1 (Some N1)
                (snd (cache_set (redis_at t) codec k2 v options s)))
           = fst (cache_get (redis_at t') codec k1 (Some N1) s)
       \<and> fst (cache_exists (redis_at t') k1 (Some N1)
                (snd (cache_set (redis_at t) codec k2 v options s)))
           = fst (cache_exists (redis_at t') k1 (Some N1) s)
       \<and> fst (cache_get (redis_at t') codec k1 (Some N1)
                (snd (cache_delete (redis_at t) k2 (Some N2) s)))
           = fst (cache_get (redis_at t') codec k1 (Some N1) s)
       \<and> fst (cache_exists (redis_at t') k1 (Some N1)
                (snd (cache_delete (redis_at t) k2 (Some N2) s)))
           = fst (cache_exists (redis_at t') k1 (Some N1) s)
       \<and> kv (snd (cache_get (redis_at t) codec k2 (Some N2) s)) = kv s
       \<and> kv (snd (cache_exists (redis_at t) k2 (Some N2) s)) = kv s"
proof -
  have d: "buildKey k1 (Some N1) \<noteq> buildKey k2 (Some N2)"
    using assms(1-5) by (rule buildKey_differ)
  then have d': "buildKey k1 (Some N1) \<noteq> buildKey k2 (namespace options)"
    using assms(6) by simp
  show ?thesis
    using d by (simp add: cache_get_view cache_exists_view cache_set_frame(2) [OF d']
        cache_set_frame(1) cache_delete_frame cache_get_frame cache_exists_frame)
qed


lemma scalar_json_simps:
  "stringify scalar_json = scalar_stringify"
  "parse scalar_json = scalar_parse"
  by (simp_all add: scalar_json_def)

lemmas cache_eval =
  cache_get_def cache_set_def cache_delete_def cache_exists_def bindR_def returnR_def throwR_def
  getRedisClient_def redis_at_cache_simps r_get_def r_setEx_def r_del_def r_exists_def
  log_cmd_def put_def remove_def live_def Let_def buildKey_def effectiveTtl_def DEFAULT_TTL_def
  scalar_json_simps scalar_stringify_def scalar_parse_def

theorem namespace_isolation_colon_free_witness:
  "fst (cache_get (redis_at 10) scalar_json ''user:1'' (Some ''t1'')
          (snd (cache_set (redis_at 5) scalar_json ''user:1'' (JBool False)
                  \<lparr>ttl = None, namespace = Some ''t2''\<rparr>
                  \<lparr>connected = True,
                   kv = [''t1:user:1'' \<mapsto> \<lparr>rval = RString ''true'', rexp = None\<rparr>],
                   journal = []\<rparr>)))
     = JBool True"
proof -
  let ?s = "\<lparr>connected = True,
             kv = [''t1:user:1'' \<mapsto> \<lparr>rval = RString ''true'', rexp = None\<rparr>],
             journal = []\<rparr>"
  let ?options = "\<lparr>ttl = None, namespace = Some ''t2''\<rparr>"
  have h1: "''t1'' \<noteq> ''t2''" by simp
  have h2: "''t1'' \<noteq> []" by simp
  have h3: "''t2'' \<noteq> []" by simp
  have h4: "CHR '':'' \<notin> set ''t1''" by simp
  have h5: "CHR '':'' \<notin> set ''t2''" by simp
  have h6: "namespace ?options = Some ''t2''" by simp
  have before: "fst (cache_get (redis_at 10) scalar_json ''user:1'' (Some ''t1'') ?s) = JBool True"
    by (simp add: cache_eval)
  from namespace_isolation_colon_free [OF h1 h2 h3 h4 h5 h6, of "''user:1''" "''user:1''" 10
      scalar_json 5 "JBool False" ?s]
  show ?thesis using before by simp
qed

text \<open>
  Claim C3 as stated fails: isolation is by prefix only. Key \<open>c\<close> written under namespace
  \<open>a:b\<close> is read back as key \<open>b:c\<close> under the different namespace \<open>a\<close>, and the
  unscoped key \<open>N1:k\<close> is read back as key \<open>k\<close> under namespace \<open>N1\<close>.
\<close>

theorem namespace_collision_counterexample:
  "''a'' \<noteq> ''a:b''
   \<and> fst (cache_get (redis_at 0) scalar_json ''b:c'' (Some ''a'')
            \<lparr>connected = True, kv = Map.empty, journal = []\<rparr>) = JNull
   \<and> fst (cache_get (redis_at 0) scalar_json ''b:c'' (Some ''a'')
            (snd (cache_set (redis_at 0) scalar_json ''c'' (JBool True)
                    \<lparr>ttl = None, namespace = Some ''a:b''\<rparr>
                    \<lparr>connected = True, kv = Map.empty, journal = []\<rparr>))) = JBool True
   \<and> fst (cache_get (redis_at 0) scalar_json ''k'' (Some ''N1'')
            (snd (cache_set (redis_at 0) scalar_json ''N1:k'' (JBool True)
                    \<lparr>ttl = None, namespace = None\<rparr>
                    \<lparr>connected = True, kv = Map.empty, journal = []\<rparr>))) = JBool True"
  by (simp add: cache_eval)

subsection \<open>getOrSet\<close>









subsection \<open>Counters\<close>

text \<open>
  Claim C10. For every client: when \<open>getRedisClient\<close> refuses or the store's
  \<open>INCRBY\<close> (\<open>DECRBY\<close>) rejects, \<open>increment\<close> (\<open>decrement\<close>) returns 0 instead of
  raising; and when the store command succeeds with the counter value 0 the call returns 0
  as well, so the caller sees the same value in both cases.
\<close>

theorem counter_failure_returns_zero:
  "(\<not> rc_ready cl s \<or> (\<exists>e s'. rc_incrBy cl (buildKey k ns) b s = (Inl e, s'))
      \<longrightarrow> fst (increment cl k b ns s) = 0)
   \<and> (\<not> rc_ready cl s \<or> (\<exists>e s'. rc_decrBy cl (buildKey k ns) b s = (Inl e, s'))
      \<longrightarrow> fst (decrement cl k b ns s) = 0)
   \<and> (rc_ready cl s \<and> (\<exists>s'. rc_incrBy cl (buildKey k ns) b s = (Inr 0, s'))
      \<longrightarrow> fst (increment cl k b ns s) = 0)
   \<and> (rc_ready cl s \<and> (\<exists>s'. rc_decrBy cl (buildKey k ns) b s = (Inr 0, s'))
      \<longrightarrow> fst (decrement cl k b ns s) = 0)"
  by (auto simp: increment_def decrement_def bindR_def returnR_def getRedisClient_def Let_def)

theorem counter_failure_returns_zero_witness:
  "fst (increment (redis_at 0) ''hits'' 1 None
          \<lparr>connected = True,
           kv = [''hits'' \<mapsto> \<lparr>rval = RSet [''x''], rexp = None\<rparr>],
           journal = []\<rparr>) = 0
   \<and> fst (increment (redis_at 0) ''hits'' 1 None
          \<lparr>connected = True,
           kv = [''hits'' \<mapsto> \<lparr>rval = RString ''-1'', rexp = None\<rparr>],
           journal = []\<rparr>) = 0
   \<and> fst (decrement (redis_at 0) ''hits'' 1 None
          \<lparr>connected = False, kv = Map.empty, journal = []\<rparr>) = 0"
proof -
  let ?bad = "\<lparr>connected = True,
           kv = [''hits'' \<mapsto> \<lparr>rval = RSet [''x''], rexp = None\<rparr>],
           journal = []\<rparr>"
  let ?zero = "\<lparr>connected = True,
           kv = [''hits'' \<mapsto> \<lparr>rval = RString ''-1'', rexp = None\<rparr>],
           journal = []\<rparr>"
  let ?down = "\<lparr>connected = False, kv = Map.empty, journal = []\<rparr>"
  have "\<exists>e s'. rc_incrBy (redis_at 0) (buildKey ''hits'' None) 1 ?bad = (Inl e, s')"
    by (simp add: redis_at_def r_incrBy_def live_def buildKey_def)
  then have h1: "\<not> rc_ready (redis_at 0) ?bad
      \<or> (\<exists>e s'. rc_incrBy (redis_at 0) (buildKey ''hits'' None) 1 ?bad = (Inl e, s'))"
    by blast
  have "\<exists>s'. rc_incrBy (redis_at 0) (buildKey ''hits'' None) 1 ?zero = (Inr 0, s')"
    by (simp add: redis_at_def r_incrBy_def live_def buildKey_def parse_int_def parse_nat_def
        is_digit_def digit_val_def)
  then have h2: "rc_ready (redis_at 0) ?zero
      \<and> (\<exists>s'. rc_incrBy (redis_at 0) (buildKey ''hits'' None) 1 ?zero = (Inr 0, s'))"
    by (simp add: redis_at_def)
  have h3: "\<not> rc_ready (redis_at 0) ?down
      \<or> (\<exists>e s'. rc_decrBy (redis_at 0) (buildKey ''hits'' None) 1 ?down = (Inl e, s'))"
    by (simp add: redis_at_def)
  from counter_failure_returns_zero [of "redis_at 0" ?bad "''hits''" None 1] h1
  have r1: "fst (increment (redis_at 0) ''hits'' 1 None ?bad) = 0" by blast
  from counter_failure_returns_zero [of "redis_at 0" ?zero "''hits''" None 1] h2
  have r2: "fst (increment (redis_at 0) ''hits'' 1 None ?zero) = 0" by blast
  from counter_failure_returns_zero [of "redis_at 0" ?down "''hits''" None 1] h3
  have r3: "fst (decrement (redis_at 0) ''hits'' 1 None ?down) = 0" by blast
  from r1 r2 r3 show ?thesis by blast
qed

subsection \<open>Tenant resolution\<close>

lemma extractTenantIdentifier_order:
  "extractTenantIdentifier verify req =
     (case hostSubdomain req of
        Some t \<Rightarrow> Some t
      | None \<Rightarrow> (case headerTenant req of
                   Some t \<Rightarrow> Some t
                 | None \<Rightarrow> bearerTenant verify req))"
  by (auto simp: extractTenantIdentifier_def hostSubdomain_def headerTenant_def bearerTenant_def
      falsy_def Let_def split: option.splits)

text \<open>
  Claim C7, as the code has it. The identifier is resolved first-match-wins in the order
  (1) subdomain parsed from the host, (2) \<open>X-Tenant-ID\<close> header, (3) \<open>tenantId\<close> claim of
  a bearer token; when none of the three yields an identifier, \<open>extractTenantContext\<close>
  returns no tenant context.
\<close>

theorem tenant_resolution_order:
  "extractTenantIdentifier verify req =
     (case hostSubdomain req of
        Some t \<Rightarrow> Some t
      | None \<Rightarrow> (case headerTenant req of
                   Some t \<Rightarrow> Some t
                 | None \<Rightarrow> bearerTenant verify req))
   \<and> (hostSubdomain req = None \<and> headerTenant req = None \<and> bearerTenant verify req = None
        \<longrightarrow> extractTenantContext verify db req = None)"
  by (simp add: extractTenantIdentifier_order extractTenantContext_def)

theorem tenant_resolution_order_witness:
  "extractTenantIdentifier (\<lambda>token. if token = ''tok'' then Some \<lparr>jwt_tenantId = Some ''t-9''\<rparr> else None)
      \<lparr>host = Some ''www.jeweler.com'', xTenantId = None, authorization = Some ''Bearer tok''\<rparr>
     = Some ''t-9''
   \<and> extractTenantContext (\<lambda>token. None) \<lparr>available = True, tenants = []\<rparr>
      \<lparr>host = Some ''localhost'', xTenantId = Some '''', authorization = Some ''Basic abc''\<rparr> = None"
proof -
  let ?v = "\<lambda>token. if token = ''tok'' then Some \<lparr>jwt_tenantId = Some ''t-9''\<rparr> else None"
  let ?r1 = "\<lparr>host = Some ''www.jeweler.com'', xTenantId = None, authorization = Some ''Bearer tok''\<rparr>"
  let ?r2 = "\<lparr>host = Some ''localhost'', xTenantId = Some '''', authorization = Some ''Basic abc''\<rparr>"
  have a: "hostSubdomain ?r1 = None" "headerTenant ?r1 = None" "bearerTenant ?v ?r1 = Some ''t-9''"
    by (simp_all add: hostSubdomain_def headerTenant_def bearerTenant_def falsy_def)
  have b: "hostSubdomain ?r2 = None \<and> headerTenant ?r2 = None \<and> bearerTenant (\<lambda>token. None) ?r2 = None"
    by (simp add: hostSubdomain_def headerTenant_def bearerTenant_def falsy_def)
  from tenant_resolution_order [of ?v ?r1, THEN conjunct1] a
  have r1: "extractTenantIdentifier ?v ?r1 = Some ''t-9''" by simp
  from tenant_resolution_order [of "\<lambda>token. None" ?r2 "\<lparr>available = True, tenants = []\<rparr>", THEN conjunct2] b
  have r2: "extractTenantContext (\<lambda>token. None) \<lparr>available = True, tenants = []\<rparr> ?r2 = None"
    by blast
  from r1 r2 show ?thesis by blast
qed

text \<open>
  Claim C7 as stated fails: with both a tenant subdomain in the host and an explicit
  \<open>X-Tenant-ID\<close> header, the code resolves the subdomain (\<open>acme\<close>, tenant \<open>t-7\<close>), where
  the stated order resolves the header (\<open>t-42\<close>).
\<close>

theorem tenant_header_first_counterexample:
  "extractTenantIdentifier (\<lambda>token. None)
      \<lparr>host = Some ''acme.jeweler.com'', xTenantId = Some ''t-42'', authorization = None\<rparr>
     = Some ''acme''
   \<and> specifiedOrder (\<lambda>token. None)
      \<lparr>host = Some ''acme.jeweler.com'', xTenantId = Some ''t-42'', authorization = None\<rparr>
     = Some ''t-42''
   \<and> map_option tenant_id (extractTenantContext (\<lambda>token. None)
      \<lparr>available = True,
       tenants = [\<lparr>tenant_id = ''t-42'', tenant_name = ''Beta'', subdomain = ''beta'',
                   databaseName = ''db_beta'', status = ACTIVE\<rparr>,
                  \<lparr>tenant_id = ''t-7'', tenant_name = ''Acme'', subdomain = ''acme'',
                   databaseName = ''db_acme'', status = ACTIVE\<rparr>]\<rparr>
      \<lparr>host = Some ''acme.jeweler.com'', xTenantId = Some ''t-42'', authorization = None\<rparr>)
     = Some ''t-7''"
  by (simp add: extractTenantIdentifier_def extractTenantContext_def specifiedOrder_def
      hostSubdomain_def headerTenant_def findFirst_def falsy_def)

subsection \<open>Connection registry\<close>

lemma getTenantDb_cached:
  "tenantConnections reg T = Some c \<Longrightarrow> getTenantDb env T reg = (Inr c, reg)"
  by (simp add: getTenantDb_def)

lemma getTenantDb_cold_success:
  assumes "tenantConnections reg T = None"
    and "findUnique (platform env) T = Inr (Some tenant)"
    and "status tenant = ACTIVE \<or> status tenant = TRIAL"
    and "reachable env (tenantDatabaseUrl (baseUrl env) (databaseName tenant))"
  shows "getTenantDb env T reg =
     (Inr \<lparr>client_no = constructed reg,
           url = tenantDatabaseUrl (baseUrl env) (databaseName tenant)\<rparr>,
      reg\<lparr>constructed := constructed reg + 1,
          established := established reg @
            [\<lparr>client_no = constructed reg,
              url = tenantDatabaseUrl (baseUrl env) (databaseName tenant)\<rparr>],
          tenantConnections := (tenantConnections reg)(T \<mapsto>
            \<lparr>client_no = constructed reg,
             url = tenantDatabaseUrl (baseUrl env) (databaseName tenant)\<rparr>)\<rparr>)"
  using assms by (auto simp: getTenantDb_def Let_def)

lemma getTenantDb_failure_frame:
  assumes "fst (getTenantDb env T reg) = Inl e"
  shows "tenantConnections (snd (getTenantDb env T reg)) = tenantConnections reg"
    and "established (snd (getTenantDb env T reg)) = established reg"
    and "tenantConnections reg T = None"
    and "e = PlatformUnavailable \<or> e = TenantNotFound T \<or> e = TenantNotActive T
         \<or> e = ConnectionFailed T"
  using assms
  by (auto simp: getTenantDb_def findUnique_def Let_def split: option.splits sum.splits if_splits)

lemma getTenantDb_as_segments:
  "(case call_step env T Started reg of
      (st1, reg1) \<Rightarrow> (case call_step env T st1 reg1 of
         (st2, reg2) \<Rightarrow> call_step env T st2 reg2))
   = (Returned (fst (getTenantDb env T reg)), snd (getTenantDb env T reg))"
  by (auto simp: getTenantDb_def Let_def split: option.splits sum.splits)

lemma repeat_cached:
  "tenantConnections reg T = Some c \<Longrightarrow>
   getTenantDb_repeat env T n reg = (replicate n (Inr c), reg)"
  by (induction n) (simp_all add: getTenantDb_cached)

text \<open>
  Claim C5. When \<open>getTenantDb(T)\<close> fails (platform database unavailable, tenant missing,
  tenant neither ACTIVE nor TRIAL, or \<open>$connect()\<close> rejected), the map
  \<open>tenantConnections\<close> is unchanged and has no entry for \<open>T\<close>, and no connection counts as
  established. A later call under conditions in which the tenant is found, active and
  reachable looks the tenant up again, connects a newly constructed client and caches it.
\<close>

theorem getTenantDb_failure_not_cached:
  assumes "fst (getTenantDb env T reg) = Inl e"
  shows "tenantConnections (snd (getTenantDb env T reg)) = tenantConnections reg
       \<and> tenantConnections (snd (getTenantDb env T reg)) T = None
       \<and> established (snd (getTenantDb env T reg)) = established reg
       \<and> (findUnique (platform env') T = Inr (Some tenant)
            \<and> (status tenant = ACTIVE \<or> status tenant = TRIAL)
            \<and> reachable env' (tenantDatabaseUrl (baseUrl env') (databaseName tenant))
          \<longrightarrow> fst (getTenantDb env' T (snd (getTenantDb env T reg)))
                = Inr \<lparr>client_no = constructed (snd (getTenantDb env T reg)),
                       url = tenantDatabaseUrl (baseUrl env') (databaseName tenant)\<rparr>
              \<and> tenantConnections (snd (getTenantDb env' T (snd (getTenantDb env T reg)))) T
                = Some \<lparr>client_no = constructed (snd (getTenantDb env T reg)),
                        url = tenantDatabaseUrl (baseUrl env') (databaseName tenant)\<rparr>
              \<and> established (snd (getTenantDb env' T (snd (getTenantDb env T reg))))
                = established reg @
                    [\<lparr>client_no = constructed (snd (getTenantDb env T reg)),
                      url = tenantDatabaseUrl (baseUrl env') (databaseName tenant)\<rparr>])"
proof -
  let ?reg' = "snd (getTenantDb env T reg)"
  have f: "tenantConnections ?reg' = tenantConnections reg" "established ?reg' = established reg"
    "tenantConnections reg T = None"
    using getTenantDb_failure_frame [OF assms] by simp_all
  have cold: "tenantConnections ?reg' T = None" using f by simp
  show ?thesis
    using f by (auto simp: getTenantDb_cold_success [OF cold])
qed

theorem getTenantDb_failure_not_cached_witness:
  "tenantConnections (snd (getTenantDb
        \<lparr>platform = \<lparr>available = True,
           tenants = [\<lparr>tenant_id = ''t1'', tenant_name = ''Acme'', subdomain = ''acme'',
                       databaseName = ''db_acme'', status = ACTIVE\<rparr>]\<rparr>,
         baseUrl = ''mysql://localhost:3306/jeweler_platform'',
         reachable = (\<lambda>u. False)\<rparr> ''t1''
        \<lparr>tenantConnections = Map.empty, constructed = 0, established = []\<rparr>)) ''t1'' = None
   \<and> fst (getTenantDb
        \<lparr>platform = \<lparr>available = True,
           tenants = [\<lparr>tenant_id = ''t1'', tenant_name = ''Acme'', subdomain = ''acme'',
                       databaseName = ''db_acme'', status = ACTIVE\<rparr>]\<rparr>,
         baseUrl = ''mysql://localhost:3306/jeweler_platform'',
         reachable = (\<lambda>u. True)\<rparr> ''t1''
        (snd (getTenantDb
          \<lparr>platform = \<lparr>available = True,
             tenants = [\<lparr>tenant_id = ''t1'', tenant_name = ''Acme'', subdomain = ''acme'',
                         databaseName = ''db_acme'', status = ACTIVE\<rparr>]\<rparr>,
           baseUrl = ''mysql://localhost:3306/jeweler_platform'',
           reachable = (\<lambda>u. False)\<rparr> ''t1''
          \<lparr>tenantConnections = Map.empty, constructed = 0, established = []\<rparr>)))
       = Inr \<lparr>client_no = 1, url = ''mysql://localhost:3306/db_acme''\<rparr>"
proof -
  let ?row = "\<lparr>tenant_id = ''t1'', tenant_name = ''Acme'', subdomain = ''acme'',
               databaseName = ''db_acme'', status = ACTIVE\<rparr>"
  let ?db = "\<lparr>available = True, tenants = [?row]\<rparr>"
  let ?down = "\<lparr>platform = ?db, baseUrl = ''mysql://localhost:3306/jeweler_platform'',
                reachable = (\<lambda>u. False)\<rparr>"
  let ?up = "\<lparr>platform = ?db, baseUrl = ''mysql://localhost:3306/jeweler_platform'',
              reachable = (\<lambda>u. True)\<rparr>"
  let ?reg = "\<lparr>tenantConnections = Map.empty, constructed = 0, established = []\<rparr>"
  have h: "fst (getTenantDb ?down ''t1'' ?reg) = Inl (ConnectionFailed ''t1'')"
    by (simp add: getTenantDb_def findUnique_def Let_def)
  have n: "constructed (snd (getTenantDb ?down ''t1'' ?reg)) = 1"
    by (simp add: getTenantDb_def findUnique_def Let_def)
  have u: "tenantDatabaseUrl (baseUrl ?up) (databaseName ?row) = ''mysql://localhost:3306/db_acme''"
    by (simp add: tenantDatabaseUrl_def)
  have r: "findUnique (platform ?up) ''t1'' = Inr (Some ?row)
            \<and> (status ?row = ACTIVE \<or> status ?row = TRIAL)
            \<and> reachable ?up (tenantDatabaseUrl (baseUrl ?up) (databaseName ?row))"
    by (simp add: findUnique_def)
  from getTenantDb_failure_not_cached [OF h, of ?up ?row] r
  have "tenantConnections (snd (getTenantDb ?down ''t1'' ?reg)) ''t1'' = None
      \<and> fst (getTenantDb ?up ''t1'' (snd (getTenantDb ?down ''t1'' ?reg)))
          = Inr \<lparr>client_no = constructed (snd (getTenantDb ?down ''t1'' ?reg)),
                 url = tenantDatabaseUrl (baseUrl ?up) (databaseName ?row)\<rparr>"
    by blast
  then show ?thesis unfolding n u by simp
qed

text \<open>
  Claim C2, as the code has it. For a cold tenant that is found, active and reachable, any
  number of calls made one after the other establish exactly one connection and all return
  that client. Establishment is not serialized: two calls that both pass the cache check
  before either has cached its client establish one connection each.
\<close>

theorem sequential_calls_share_one_connection:
  assumes "tenantConnections reg T = None"
    and "findUnique (platform env) T = Inr (Some tenant)"
    and "status tenant = ACTIVE \<or> status tenant = TRIAL"
    and "reachable env (tenantDatabaseUrl (baseUrl env) (databaseName tenant))"
  shows "fst (getTenantDb_repeat env T (Suc n) reg)
           = replicate (Suc n) (Inr \<lparr>client_no = constructed reg,
                 url = tenantDatabaseUrl (baseUrl env) (databaseName tenant)\<rparr>)
       \<and> established (snd (getTenantDb_repeat env T (Suc n) reg))
           = established reg @ [\<lparr>client_no = constructed reg,
                 url = tenantDatabaseUrl (baseUrl env) (databaseName tenant)\<rparr>]
       \<and> established (snd (run_schedule env [0, 1, 0, 1, 0, 1] [(T, Started), (T, Started)] reg))
           = established reg @
               [\<lparr>client_no = constructed reg,
                 url = tenantDatabaseUrl (baseUrl env) (databaseName tenant)\<rparr>,
                \<lparr>client_no = constructed reg + 1,
                 url = tenantDatabaseUrl (baseUrl env) (databaseName tenant)\<rparr>]"
proof -
  define c where "c = \<lparr>client_no = constructed reg,
             url = tenantDatabaseUrl (baseUrl env) (databaseName tenant)\<rparr>"
  define reg1 where "reg1 = reg\<lparr>constructed := constructed reg + 1,
          established := established reg @ [c],
          tenantConnections := (tenantConnections reg)(T \<mapsto> c)\<rparr>"
  have first: "getTenantDb env T reg = (Inr c, reg1)"
    unfolding c_def reg1_def using assms by (rule getTenantDb_cold_success)
  have "tenantConnections reg1 T = Some c" by (simp add: reg1_def)
  then have rest: "getTenantDb_repeat env T n reg1 = (replicate n (Inr c), reg1)"
    by (rule repeat_cached)
  have seq: "getTenantDb_repeat env T (Suc n) reg = (replicate (Suc n) (Inr c), reg1)"
    by (simp add: first rest)
  have overlap: "established (snd (run_schedule env [0, 1, 0, 1, 0, 1] [(T, Started), (T, Started)] reg))
           = established reg @ [c, \<lparr>client_no = constructed reg + 1,
                 url = tenantDatabaseUrl (baseUrl env) (databaseName tenant)\<rparr>]"
    using assms by (auto simp: c_def)
  have e1: "established reg1 = established reg @ [c]" by (simp add: reg1_def)
  show ?thesis
    unfolding c_def [symmetric] using overlap by (simp only: seq fst_conv snd_conv e1 simp_thms)
qed


theorem sequential_calls_share_one_connection_witness:
  "fst (getTenantDb_repeat
        \<lparr>platform = \<lparr>available = True,
           tenants = [\<lparr>tenant_id = ''t1'', tenant_name = ''Acme'', subdomain = ''acme'',
                       databaseName = ''db_acme'', status = TRIAL\<rparr>]\<rparr>,
         baseUrl = ''mysql://localhost:3306/jeweler_platform'',
         reachable = (\<lambda>u. True)\<rparr> ''t1'' (Suc 2)
        \<lparr>tenantConnections = Map.empty, constructed = 0, established = []\<rparr>)
     = [Inr \<lparr>client_no = 0, url = ''mysql://localhost:3306/db_acme''\<rparr>,
        Inr \<lparr>client_no = 0, url = ''mysql://localhost:3306/db_acme''\<rparr>,
        Inr \<lparr>client_no = 0, url = ''mysql://localhost:3306/db_acme''\<rparr>]
   \<and> established (snd (getTenantDb_repeat
        \<lparr>platform = \<lparr>available = True,
           tenants = [\<lparr>tenant_id = ''t1'', tenant_name = ''Acme'', subdomain = ''acme'',
                       databaseName = ''db_acme'', status = TRIAL\<rparr>]\<rparr>,
         baseUrl = ''mysql://localhost:3306/jeweler_platform'',
         reachable = (\<lambda>u. True)\<rparr> ''t1'' (Suc 2)
        \<lparr>tenantConnections = Map.empty, constructed = 0, established = []\<rparr>))
     = [\<lparr>client_no = 0, url = ''mysql://localhost:3306/db_acme''\<rparr>]"
proof -
  let ?row = "\<lparr>tenant_id = ''t1'', tenant_name = ''Acme'', subdomain = ''acme'',
               databaseName = ''db_acme'', status = TRIAL\<rparr>"
  let ?env = "\<lparr>platform = \<lparr>available = True, tenants = [?row]\<rparr>,
               baseUrl = ''mysql://localhost:3306/jeweler_platform'',
               reachable = (\<lambda>u. True)\<rparr>"
  let ?reg = "\<lparr>tenantConnections = Map.empty, constructed = 0, established = []\<rparr>"
  have h1: "tenantConnections ?reg ''t1'' = None" by simp
  have h2: "findUnique (platform ?env) ''t1'' = Inr (Some ?row)" by (simp add: findUnique_def)
  have h3: "status ?row = ACTIVE \<or> status ?row = TRIAL" by simp
  have h4: "reachable ?env (tenantDatabaseUrl (baseUrl ?env) (databaseName ?row))" by simp
  have u: "tenantDatabaseUrl (baseUrl ?env) (databaseName ?row) = ''mysql://localhost:3306/db_acme''"
    by (simp add: tenantDatabaseUrl_def)
  from sequential_calls_share_one_connection [OF h1 h2 h3 h4, of 2]
  have "fst (getTenantDb_repeat ?env ''t1'' (Suc 2) ?reg)
           = replicate (Suc 2) (Inr \<lparr>client_no = constructed ?reg,
                 url = tenantDatabaseUrl (baseUrl ?env) (databaseName ?row)\<rparr>)
       \<and> established (snd (getTenantDb_repeat ?env ''t1'' (Suc 2) ?reg))
           = established ?reg @ [\<lparr>client_no = constructed ?reg,
                 url = tenantDatabaseUrl (baseUrl ?env) (databaseName ?row)\<rparr>]"
    by blast
  then show ?thesis unfolding u by (simp add: numeral_2_eq_2 del: getTenantDb_repeat.simps)
qed

text \<open>
  Claim C2 as stated fails: two overlapping calls for the cold tenant \<open>t1\<close>, their segments
  alternating, establish two connections and return two different clients.
\<close>

theorem overlapping_calls_counterexample:
  "established (snd (run_schedule
        \<lparr>platform = \<lparr>available = True,
           tenants = [\<lparr>tenant_id = ''t1'', tenant_name = ''Acme'', subdomain = ''acme'',
                       databaseName = ''db_acme'', status = ACTIVE\<rparr>]\<rparr>,
         baseUrl = ''mysql://localhost:3306/jeweler_platform'',
         reachable = (\<lambda>u. True)\<rparr>
        [0, 1, 0, 1, 0, 1] [(''t1'', Started), (''t1'', Started)]
        \<lparr>tenantConnections = Map.empty, constructed = 0, established = []\<rparr>))
     = [\<lparr>client_no = 0, url = ''mysql://localhost:3306/db_acme''\<rparr>,
        \<lparr>client_no = 1, url = ''mysql://localhost:3306/db_acme''\<rparr>]
   \<and> fst (run_schedule
        \<lparr>platform = \<lparr>available = True,
           tenants = [\<lparr>tenant_id = ''t1'', tenant_name = ''Acme'', subdomain = ''acme'',
                       databaseName = ''db_acme'', status = ACTIVE\<rparr>]\<rparr>,
         baseUrl = ''mysql://localhost:3306/jeweler_platform'',
         reachable = (\<lambda>u. True)\<rparr>
        [0, 1, 0, 1, 0, 1] [(''t1'', Started), (''t1'', Started)]
        \<lparr>tenantConnections = Map.empty, constructed = 0, established = []\<rparr>)
     = [(''t1'', Returned (Inr \<lparr>client_no = 0, url = ''mysql://localhost:3306/db_acme''\<rparr>)),
        (''t1'', Returned (Inr \<lparr>client_no = 1, url = ''mysql://localhost:3306/db_acme''\<rparr>))]"
  by (simp add: findUnique_def tenantDatabaseUrl_def)

subsection \<open>Sessions\<close>

lemma redis_at_session_simps:
  "rc_ready (redis_at now) = connected"
  "rc_get (redis_at now) = r_get now"
  "rc_setEx (redis_at now) = r_setEx now"
  "rc_ttl (redis_at now) = r_ttl now"
  "rc_sRem (redis_at now) = r_sRem now"
  "rc_sMembers (redis_at now) = r_sMembers now"
  by (simp_all add: redis_at_def)

lemma session_key_not_user_key: "getSessionKey sid \<noteq> getUserSessionsKey u"
  by (simp add: getSessionKey_def getUserSessionsKey_def)

lemma r_get_frame:
  "r_get now k s = (r, s') \<Longrightarrow>
     connected s' = connected s \<and> (\<forall>t b. live t s' b = live t s b)
     \<and> (live now s k = None \<longrightarrow> r = Inr None)"
  by (auto simp: r_get_def Let_def live_def log_cmd_def split: option.splits rvalue.splits)

lemma r_ttl_frame:
  "r_ttl now k s = (r, s') \<Longrightarrow>
     connected s' = connected s \<and> (\<forall>t b. live t s' b = live t s b)"
  by (auto simp: r_ttl_def Let_def live_def log_cmd_def split: option.splits)

lemma r_setEx_frame:
  "r_setEx now k secs v s = (r, s') \<Longrightarrow>
     connected s' = connected s \<and> (\<forall>t b. b \<noteq> k \<longrightarrow> live t s' b = live t s b)
     \<and> (live now s k \<noteq> None \<longrightarrow> live now s' k \<noteq> None)"
  by (auto simp: r_setEx_def Let_def live_def put_def log_cmd_def split: option.splits if_splits)

lemma updateLastActivity_frame:
  assumes "updateLastActivity (redis_at now) codec now sid d s = (d', s')"
  shows "connected s' = connected s"
    and "\<forall>t b. b \<noteq> getSessionKey sid \<longrightarrow> live t s' b = live t s b"
    and "live now s (getSessionKey sid) \<noteq> None \<longrightarrow> live now s' (getSessionKey sid) \<noteq> None"
proof -
  have "connected s' = connected s
      \<and> (\<forall>t b. b \<noteq> getSessionKey sid \<longrightarrow> live t s' b = live t s b)
      \<and> (live now s (getSessionKey sid) \<noteq> None \<longrightarrow> live now s' (getSessionKey sid) \<noteq> None)"
  proof (cases "connected s \<and> now - lastActivity d > 60000")
    case False
    then have "s' = s"
      using assms by (auto simp: updateLastActivity_def redis_at_session_simps Let_def split: if_splits)
    then show ?thesis by simp
  next
    case True
    obtain r1 s1 where t: "r_ttl now (getSessionKey sid) s = (r1, s1)" by fastforce
    note f1 = r_ttl_frame [OF t]
    show ?thesis
    proof (cases r1)
      case (Inl e)
      then have "s' = s1"
        using assms True t by (simp add: updateLastActivity_def redis_at_session_simps Let_def)
      then show ?thesis using f1 by simp
    next
      case (Inr remaining)
      show ?thesis
      proof (cases "remaining > 0")
        case False
        then have "s' = s1"
          using assms True t Inr
          by (simp add: updateLastActivity_def redis_at_session_simps Let_def)
        then show ?thesis using f1 by simp
      next
        case pos: True
        obtain r2 s2 where w: "r_setEx now (getSessionKey sid) remaining
            (stringifySession codec (d\<lparr>lastActivity := now\<rparr>)) s1 = (r2, s2)" by fastforce
        have "s' = s2"
          using assms True t Inr pos w
          by (simp add: updateLastActivity_def redis_at_session_simps Let_def)
        then show ?thesis using f1 r_setEx_frame [OF w] by simp
      qed
    qed
  qed
  then show "connected s' = connected s"
    and "\<forall>t b. b \<noteq> getSessionKey sid \<longrightarrow> live t s' b = live t s b"
    and "live now s (getSessionKey sid) \<noteq> None \<longrightarrow> live now s' (getSessionKey sid) \<noteq> None"
    by blast+
qed

lemma getSession_frame:
  assumes "getSession (redis_at now) codec now sid s = (r, s')"
  shows "connected s' = connected s"
    and "\<forall>t b. b \<noteq> getSessionKey sid \<longrightarrow> live t s' b = live t s b"
    and "live now s' (getSessionKey sid) = None \<longleftrightarrow> live now s (getSessionKey sid) = None"
    and "r \<noteq> None \<longrightarrow> live now s (getSessionKey sid) \<noteq> None"
proof -
  have "connected s' = connected s
      \<and> (\<forall>t b. b \<noteq> getSessionKey sid \<longrightarrow> live t s' b = live t s b)
      \<and> (live now s' (getSessionKey sid) = None \<longleftrightarrow> live now s (getSessionKey sid) = None)
      \<and> (r \<noteq> None \<longrightarrow> live now s (getSessionKey sid) \<noteq> None)"
  proof (cases "connected s")
    case False
    then show ?thesis
      using assms
      by (auto simp: getSession_def bindR_def getRedisClient_def redis_at_session_simps)
  next
    case True
    obtain r1 s1 where g: "r_get now (getSessionKey sid) s = (r1, s1)" by fastforce
    note f1 = r_get_frame [OF g]
    show ?thesis
    proof (cases "\<exists>text d. r1 = Inr (Some text) \<and> text \<noteq> [] \<and> parseSession codec text = Some d")
      case False
      then have "s' = s1 \<and> r = None"
        using assms True g
        by (cases r1)
           (auto simp: getSession_def bindR_def returnR_def getRedisClient_def
              redis_at_session_simps Let_def split: option.splits if_splits)
      then show ?thesis using f1 by auto
    next
      case found: True
      then obtain str d where r1: "r1 = Inr (Some str)" "str \<noteq> []"
        "parseSession codec str = Some d" by blast
      obtain d' s2 where u: "updateLastActivity (redis_at now) codec now sid d s1 = (d', s2)"
        by fastforce
      have "s' = s2"
        using assms True g r1 u
        by (simp add: getSession_def bindR_def returnR_def getRedisClient_def
            redis_at_session_simps Let_def)
      moreover have "live now s (getSessionKey sid) \<noteq> None"
        using f1 r1 by auto
      ultimately show ?thesis
        using f1 updateLastActivity_frame [OF u] by auto
    qed
  qed
  then show "connected s' = connected s"
    and "\<forall>t b. b \<noteq> getSessionKey sid \<longrightarrow> live t s' b = live t s b"
    and "live now s' (getSessionKey sid) = None \<longleftrightarrow> live now s (getSessionKey sid) = None"
    and "r \<noteq> None \<longrightarrow> live now s (getSessionKey sid) \<noteq> None"
    by blast+
qed


lemma r_sRem_frame:
  assumes "r_sRem now (getUserSessionsKey u) m s = (r, s')"
    and "\<forall>e v. live now s (getUserSessionsKey u) = Some e \<longrightarrow> rval e \<noteq> RString v"
  shows "\<exists>n. r = Inr n"
    and "connected s' = connected s"
    and "\<forall>t b. b \<noteq> getUserSessionsKey u \<longrightarrow> live t s' b = live t s b"
    and "sessionSet now s' u = removeAll m (sessionSet now s u)"
    and "\<forall>e v. live now s' (getUserSessionsKey u) = Some e \<longrightarrow> rval e \<noteq> RString v"
  using assms
  by (auto simp: r_sRem_def sessionSet_def Let_def live_def put_def remove_def log_cmd_def
      split: option.splits rvalue.splits if_splits)

lemma r_sMembers_frame:
  assumes "r_sMembers now (getUserSessionsKey u) s = (r, s')"
  shows "connected s' = connected s"
    and "\<forall>t b. live t s' b = live t s b"
    and "r = Inr ids \<longrightarrow> ids = sessionSet now s u
           \<and> (\<forall>e v. live now s (getUserSessionsKey u) = Some e \<longrightarrow> rval e \<noteq> RString v)"
    and "(\<exists>e. r = Inl e) \<longrightarrow> sessionSet now s u = []"
  using assms
  by (auto simp: r_sMembers_def sessionSet_def Let_def live_def log_cmd_def
      split: option.splits rvalue.splits if_splits)

lemma collectSessions_invariant:
  assumes "connected s"
    and "\<forall>e v. live now s (getUserSessionsKey u) = Some e \<longrightarrow> rval e \<noteq> RString v"
  shows "\<exists>new s'. collectSessions (redis_at now) codec now (getUserSessionsKey u) ids acc s
                    = (Inr (acc @ new), s')
     \<and> connected s'
     \<and> (\<forall>sid. sessionStored now s' sid = sessionStored now s sid)
     \<and> fst ` set new \<subseteq> {sid \<in> set ids. sessionStored now s sid}
     \<and> set (sessionSet now s' u) \<subseteq> set (sessionSet now s u)
     \<and> (\<forall>sid \<in> set ids. \<not> sessionStored now s sid \<longrightarrow> sid \<notin> set (sessionSet now s' u))"
  using assms
proof (induction ids arbitrary: acc s)
  case Nil
  then show ?case by simp
next
  case (Cons sid rest)
  let ?K = "getUserSessionsKey u"
  obtain r s1 where g: "getSession (redis_at now) codec now sid s = (r, s1)" by fastforce
  note f = getSession_frame [OF g]
  have c1: "connected s1" using f(1) Cons.prems(1) by simp
  have k1: "\<forall>t. live t s1 ?K = live t s ?K"
    using f(2) session_key_not_user_key [of sid u] by metis
  have ok1: "\<forall>e v. live now s1 ?K = Some e \<longrightarrow> rval e \<noteq> RString v"
    using Cons.prems(2) k1 by simp
  have set1: "sessionSet now s1 u = sessionSet now s u"
    using k1 by (simp add: sessionSet_def)
  have stored1: "\<forall>x. sessionStored now s1 x = sessionStored now s x"
  proof
    fix x
    show "sessionStored now s1 x = sessionStored now s x"
    proof (cases "getSessionKey x = getSessionKey sid")
      case True
      then show ?thesis using f(3) by (simp add: sessionStored_def)
    next
      case False
      then show ?thesis using f(2) by (simp add: sessionStored_def)
    qed
  qed
  show ?case
  proof (cases r)
    case (Some d)
    then have here: "sessionStored now s sid" using f(4) by (simp add: sessionStored_def)
    from Cons.IH [OF c1 ok1, of "acc @ [(sid, d)]"]
    obtain new s' where ih:
      "collectSessions (redis_at now) codec now ?K rest (acc @ [(sid, d)]) s1
         = (Inr ((acc @ [(sid, d)]) @ new), s')"
      "connected s'"
      "\<forall>x. sessionStored now s' x = sessionStored now s1 x"
      "fst ` set new \<subseteq> {x \<in> set rest. sessionStored now s1 x}"
      "set (sessionSet now s' u) \<subseteq> set (sessionSet now s1 u)"
      "\<forall>x \<in> set rest. \<not> sessionStored now s1 x \<longrightarrow> x \<notin> set (sessionSet now s' u)"
      by blast
    have run: "collectSessions (redis_at now) codec now ?K (sid # rest) acc s
         = (Inr (acc @ ((sid, d) # new)), s')"
      using g Some ih(1) by simp
    have a: "fst ` set ((sid, d) # new) \<subseteq> {x \<in> set (sid # rest). sessionStored now s x}"
      using ih(4) here stored1 by auto
    have b: "\<forall>x \<in> set (sid # rest). \<not> sessionStored now s x \<longrightarrow> x \<notin> set (sessionSet now s' u)"
      using ih(6) here stored1 by auto
    show ?thesis
      using run ih(2,3,5) stored1 set1 a b by (intro exI [of _ "(sid, d) # new"] exI [of _ s']) simp
  next
    case None
    obtain r2 s2 where m: "r_sRem now ?K sid s1 = (r2, s2)" by fastforce
    note f2 = r_sRem_frame [OF m ok1]
    obtain n where r2: "r2 = Inr n" using f2(1) by blast
    have c2: "connected s2" using f2(2) c1 by simp
    have stored2: "\<forall>x. sessionStored now s2 x = sessionStored now s x"
      using f2(3) stored1 session_key_not_user_key [of _ u] by (simp add: sessionStored_def)
    have set2: "sessionSet now s2 u = removeAll sid (sessionSet now s u)"
      using f2(4) set1 by simp
    from Cons.IH [OF c2 f2(5), of acc]
    obtain new s' where ih:
      "collectSessions (redis_at now) codec now ?K rest acc s2 = (Inr (acc @ new), s')"
      "connected s'"
      "\<forall>x. sessionStored now s' x = sessionStored now s2 x"
      "fst ` set new \<subseteq> {x \<in> set rest. sessionStored now s2 x}"
      "set (sessionSet now s' u) \<subseteq> set (sessionSet now s2 u)"
      "\<forall>x \<in> set rest. \<not> sessionStored now s2 x \<longrightarrow> x \<notin> set (sessionSet now s' u)"
      by blast
    have run: "collectSessions (redis_at now) codec now ?K (sid # rest) acc s = (Inr (acc @ new), s')"
      using g None m r2 ih(1) by (simp add: redis_at_session_simps)
    have a: "fst ` set new \<subseteq> {x \<in> set (sid # rest). sessionStored now s x}"
      using ih(4) stored2 by auto
    have sub: "set (sessionSet now s' u) \<subseteq> set (sessionSet now s u)"
      using ih(5) set2 by auto
    have gone: "sid \<notin> set (sessionSet now s' u)" using ih(5) set2 by auto
    have b: "\<forall>x \<in> set (sid # rest). \<not> sessionStored now s x \<longrightarrow> x \<notin> set (sessionSet now s' u)"
      using ih(6) gone stored2 by auto
    show ?thesis
      using run ih(2,3) stored2 a sub b by (intro exI [of _ new] exI [of _ s']) simp
  qed
qed

text \<open>
  Claim C9. On a connected store, every session id returned by \<open>getUserSessions(u)\<close> is
  a member of \<open>u\<close>'s set whose session data is stored when the call returns; every member
  of the set whose session data is absent is neither returned nor a member of the set
  afterwards; and the call adds no member to the set.
\<close>

theorem getUserSessions_prunes_dangling:
  assumes "connected s"
  shows "(\<forall>(sid, d) \<in> set (fst (getUserSessions (redis_at now) codec now u s)).
            sid \<in> set (sessionSet now s u)
            \<and> sessionStored now (snd (getUserSessions (redis_at now) codec now u s)) sid)
       \<and> (\<forall>sid \<in> set (sessionSet now s u).
            \<not> sessionStored now s sid \<longrightarrow>
              sid \<notin> set (sessionSet now (snd (getUserSessions (redis_at now) codec now u s)) u)
              \<and> sid \<notin> fst ` set (fst (getUserSessions (redis_at now) codec now u s)))
       \<and> set (sessionSet now (snd (getUserSessions (redis_at now) codec now u s)) u)
            \<subseteq> set (sessionSet now s u)"
proof -
  let ?K = "getUserSessionsKey u"
  obtain r s0 where m: "r_sMembers now ?K s = (r, s0)" by fastforce
  note f = r_sMembers_frame [OF m]
  have c0: "connected s0" using f(1) assms by simp
  have stored0: "\<forall>x. sessionStored now s0 x = sessionStored now s x"
    using f(2) by (simp add: sessionStored_def)
  have set0: "sessionSet now s0 u = sessionSet now s u"
    using f(2) by (simp add: sessionSet_def)
  show ?thesis
  proof (cases r)
    case (Inl e)
    then have res: "getUserSessions (redis_at now) codec now u s = ([], s0)"
      using assms m
      by (simp add: getUserSessions_def bindR_def getRedisClient_def redis_at_session_simps Let_def)
    have "sessionSet now s u = []" using f(4) Inl by blast
    then show ?thesis using res set0 by simp
  next
    case (Inr ids)
    then have ids: "ids = sessionSet now s u"
      and ok: "\<forall>e v. live now s ?K = Some e \<longrightarrow> rval e \<noteq> RString v"
      using f(3) [of ids] by blast+
    have ok0: "\<forall>e v. live now s0 ?K = Some e \<longrightarrow> rval e \<noteq> RString v"
      using ok f(2) by simp
    from collectSessions_invariant [OF c0 ok0, of codec ids "[]"]
    obtain new s' where inv:
      "collectSessions (redis_at now) codec now ?K ids [] s0 = (Inr new, s')"
      "\<forall>x. sessionStored now s' x = sessionStored now s0 x"
      "fst ` set new \<subseteq> {x \<in> set ids. sessionStored now s0 x}"
      "set (sessionSet now s' u) \<subseteq> set (sessionSet now s0 u)"
      "\<forall>x \<in> set ids. \<not> sessionStored now s0 x \<longrightarrow> x \<notin> set (sessionSet now s' u)"
      by auto
    have res: "getUserSessions (redis_at now) codec now u s = (new, s')"
      using assms m Inr inv(1)
      by (simp add: getUserSessions_def bindR_def getRedisClient_def redis_at_session_simps Let_def)
    show ?thesis
      unfolding res using inv(2-5) stored0 set0 ids by (auto simp: image_subset_iff)
  qed
qed


theorem getUserSessions_prunes_dangling_witness:
  "''s2'' \<notin> set (sessionSet 100000 (snd (getUserSessions (redis_at 100000)
        \<lparr>stringifySession = (\<lambda>d. ''{}''),
          parseSession = (\<lambda>str. if str = ''{}''
            then Some \<lparr>userId = ''u1'', tenantId = ''t1'', email = ''a@b.com'', role = ''admin'',
                       deviceInfo = None, loginTime = 0, lastActivity = 90000,
                       twoFactorVerified = None\<rparr>
            else None)\<rparr> 100000 ''u1''
        \<lparr>connected = True,
         kv = [''user_sessions:u1'' \<mapsto> \<lparr>rval = RSet [''s1'', ''s2''], rexp = None\<rparr>,
               ''session:s1'' \<mapsto> \<lparr>rval = RString ''{}'', rexp = Some 200000\<rparr>,
               ''session:s2'' \<mapsto> \<lparr>rval = RString ''{}'', rexp = Some 50000\<rparr>],
         journal = []\<rparr>)) ''u1'')
   \<and> ''s2'' \<notin> fst ` set (fst (getUserSessions (redis_at 100000)
        \<lparr>stringifySession = (\<lambda>d. ''{}''),
          parseSession = (\<lambda>str. if str = ''{}''
            then Some \<lparr>userId = ''u1'', tenantId = ''t1'', email = ''a@b.com'', role = ''admin'',
                       deviceInfo = None, loginTime = 0, lastActivity = 90000,
                       twoFactorVerified = None\<rparr>
            else None)\<rparr> 100000 ''u1''
        \<lparr>connected = True,
         kv = [''user_sessions:u1'' \<mapsto> \<lparr>rval = RSet [''s1'', ''s2''], rexp = None\<rparr>,
               ''session:s1'' \<mapsto> \<lparr>rval = RString ''{}'', rexp = Some 200000\<rparr>,
               ''session:s2'' \<mapsto> \<lparr>rval = RString ''{}'', rexp = Some 50000\<rparr>],
         journal = []\<rparr>))"
proof -
  let ?s = "\<lparr>connected = True,
         kv = [''user_sessions:u1'' \<mapsto> \<lparr>rval = RSet [''s1'', ''s2''], rexp = None\<rparr>,
               ''session:s1'' \<mapsto> \<lparr>rval = RString ''{}'', rexp = Some 200000\<rparr>,
               ''session:s2'' \<mapsto> \<lparr>rval = RString ''{}'', rexp = Some 50000\<rparr>],
         journal = []\<rparr>"
  let ?codec = "\<lparr>stringifySession = (\<lambda>d. ''{}''),
          parseSession = (\<lambda>str. if str = ''{}''
            then Some \<lparr>userId = ''u1'', tenantId = ''t1'', email = ''a@b.com'', role = ''admin'',
                       deviceInfo = None, loginTime = 0, lastActivity = 90000,
                       twoFactorVerified = None\<rparr>
            else None)\<rparr>"
  have h: "connected ?s" by simp
  have a: "''s2'' \<in> set (sessionSet 100000 ?s ''u1'')"
    by (simp add: sessionSet_def live_def getUserSessionsKey_def)
  have b: "\<not> sessionStored 100000 ?s ''s2''"
    by (simp add: sessionStored_def live_def getSessionKey_def)
  from getUserSessions_prunes_dangling [OF h, of 100000 ?codec "''u1''"] a b
  show ?thesis by blast
qed

end
